theory Spec2Isabelle
  imports Main "HOL-Library.Word"
begin

section \<open>The hotplug-detect state machine of \<^verbatim>\<open>hpd.h\<close> / \<^verbatim>\<open>hpd.c\<close>\<close>

text \<open>
  The development embeds the driver of \<^verbatim>\<open>src/hpd.h\<close> function by function.
  A C \<^verbatim>\<open>int\<close> is a 32-bit word read in two's complement (\<open>sint\<close>, \<open>\<le>s\<close>, \<open><s\<close>),
  and \<^verbatim>\<open>++\<close> wraps around, as in a kernel built with \<^verbatim>\<open>-fno-strict-overflow\<close>;
  \<^verbatim>\<open>size_t\<close> is the 64-bit unsigned word of an LP64 kernel.
  The context \<^verbatim>\<open>struct hpd_data\<close> is a record that every function takes and returns.
  The client's private memory behind \<^verbatim>\<open>void *drv_data\<close> is a value of an arbitrary
  type \<open>'d\<close>; a client operation is a function on that value, and a function pointer
  is an \<open>option\<close> (\<open>None\<close> is \<^verbatim>\<open>NULL\<close>).
  Reading an array outside its bounds, calling through a \<^verbatim>\<open>NULL\<close> pointer and
  \<^verbatim>\<open>BUG_ON\<close> are results of type \<open>fault\<close>.
  The mutex is not a field: each embedded function is one sequential run, and in the
  runs of the whole driver the worker is cut in two at the point where it releases the
  lock (see \<open>hpd_worker_latch\<close>) and a notification at the point where it has tested
  the shutdown flag, which \<^verbatim>\<open>hpd_shutdown\<close> writes without the lock (see
  \<open>sched_hpd_work_test\<close>).
\<close>

type_synonym c_int = "32 word"
type_synonym size_t = "64 word"

datatype fault = Out_of_bounds_read | Null_call | BUG

subsection \<open>Constants\<close>

abbreviation MAX_EDID_READ_ATTEMPTS :: c_int where "MAX_EDID_READ_ATTEMPTS \<equiv> 5"
abbreviation HPD_STABILIZE_MS :: c_int where "HPD_STABILIZE_MS \<equiv> 40"
abbreviation HPD_DROP_TIMEOUT_MS :: c_int where "HPD_DROP_TIMEOUT_MS \<equiv> 1500"
abbreviation CHECK_PLUG_STATE_DELAY_MS :: c_int where "CHECK_PLUG_STATE_DELAY_MS \<equiv> 10"
abbreviation CHECK_EDID_DELAY_MS :: c_int where "CHECK_EDID_DELAY_MS \<equiv> 60"

abbreviation STATE_HPD_RESET :: c_int where "STATE_HPD_RESET \<equiv> 0"
abbreviation STATE_PLUG :: c_int where "STATE_PLUG \<equiv> 1"
abbreviation STATE_CHECK_EDID :: c_int where "STATE_CHECK_EDID \<equiv> 2"
abbreviation STATE_DONE_DISABLED :: c_int where "STATE_DONE_DISABLED \<equiv> 3"
abbreviation STATE_DONE_ENABLED :: c_int where "STATE_DONE_ENABLED \<equiv> 4"
abbreviation STATE_WAIT_FOR_HPD_REASSERT :: c_int where "STATE_WAIT_FOR_HPD_REASSERT \<equiv> 5"
abbreviation STATE_RECHECK_EDID :: c_int where "STATE_RECHECK_EDID \<equiv> 6"
abbreviation STATE_INIT_FROM_BOOTLOADER :: c_int where "STATE_INIT_FROM_BOOTLOADER \<equiv> 7"
abbreviation HPD_STATE_COUNT :: c_int where "HPD_STATE_COUNT \<equiv> 8"

definition state_names :: "string list" where
  "state_names =
     [''Reset'', ''Check Plug'', ''Check EDID'', ''Disabled'', ''Enabled'',
      ''Wait for HPD reassert'', ''Recheck EDID'', ''Takeover from bootloader'']"

text \<open>
  \<^verbatim>\<open>state_names[i]\<close> for an \<^verbatim>\<open>int\<close> index: inside the table it is the entry, outside
  (negative, or past the last entry) the read is out of bounds.
\<close>

definition state_names_at :: "c_int \<Rightarrow> fault + string" where
  "state_names_at i =
     (if 0 \<le>s i \<and> sint i < int (length state_names)
      then Inr (state_names ! unat i) else Inl Out_of_bounds_read)"

subsection \<open>Observable events\<close>

text \<open>
  What a run does to the outside is recorded, newest first, in the ghost field
  \<open>trace\<close> of the context: each call of a client operation (with the value it
  returned), each call of a workqueue primitive, and each \<^verbatim>\<open>pr_info\<close>/\<^verbatim>\<open>pr_warn\<close>
  line (with its arguments).
\<close>

datatype log_msg =
    Info_dropped_abort
  | Info_read_giving_up c_int
  | Info_retry_giving_up c_int
  | Info_no_edid_change
  | Info_ignoring_bounce
  | Info_worker c_int string c_int c_int
  | Info_switching c_int string c_int string
  | Warn_null_handler c_int
  | Warn_unexpected_state c_int

datatype event =
    Op_init
  | Op_get_hpd_state bool
  | Op_disable
  | Op_edid_read bool
  | Op_edid_ready
  | Op_edid_recheck c_int
  | Op_shutdown
  | Cancel_delayed_work
  | Cancel_delayed_work_sync
  | Schedule_delayed_work nat
  | Printk log_msg

fun is_op_call :: "event \<Rightarrow> bool" where
  "is_op_call Cancel_delayed_work = False"
| "is_op_call Cancel_delayed_work_sync = False"
| "is_op_call (Schedule_delayed_work ms) = False"
| "is_op_call (Printk m) = False"
| "is_op_call e = True"

fun is_edid_read :: "event \<Rightarrow> bool" where
  "is_edid_read (Op_edid_read r) = True"
| "is_edid_read e = False"

fun is_disable :: "event \<Rightarrow> bool" where
  "is_disable Op_disable = True"
| "is_disable e = False"

fun is_schedule :: "event \<Rightarrow> bool" where
  "is_schedule (Schedule_delayed_work ms) = True"
| "is_schedule e = False"

fun is_sched_call :: "event \<Rightarrow> bool" where
  "is_sched_call (Schedule_delayed_work ms) = True"
| "is_sched_call Cancel_delayed_work = True"
| "is_sched_call Cancel_delayed_work_sync = True"
| "is_sched_call e = False"

text \<open>
  The warnings of the worker's defensive branches that concern a state outside the
  table, or a state that is not a steady state and has no handler (the two steady
  states are \<^verbatim>\<open>STATE_DONE_DISABLED\<close> and \<^verbatim>\<open>STATE_DONE_ENABLED\<close>).
\<close>

fun is_defensive_warning :: "event \<Rightarrow> bool" where
  "is_defensive_warning (Printk (Warn_unexpected_state s)) = True"
| "is_defensive_warning (Printk (Warn_null_handler s)) =
     (s \<noteq> STATE_DONE_DISABLED \<and> s \<noteq> STATE_DONE_ENABLED)"
| "is_defensive_warning e = False"

definition count_ev :: "(event \<Rightarrow> bool) \<Rightarrow> event list \<Rightarrow> nat" where
  "count_ev P tr = length (filter P tr)"

subsection \<open>\<^verbatim>\<open>struct hpd_ops\<close> and \<^verbatim>\<open>struct hpd_data\<close>\<close>

record 'd hpd_ops =
  init :: "('d \<Rightarrow> 'd) option"
  get_hpd_state :: "('d \<Rightarrow> bool \<times> 'd) option"
  disable :: "('d \<Rightarrow> 'd) option"
  edid_read :: "('d \<Rightarrow> bool \<times> 'd) option"
  edid_ready :: "('d \<Rightarrow> 'd) option"
  edid_recheck :: "('d \<Rightarrow> c_int \<times> 'd) option"
  shutdown_op :: "('d \<Rightarrow> 'd) option"

text \<open>
  \<open>dwork\<close> is the delayed work item: \<open>None\<close> when it is not pending, \<open>Some ms\<close> when
  it is queued to run after \<open>ms\<close> milliseconds. \<open>shutdown_op\<close> is the operation
  \<^verbatim>\<open>shutdown\<close> of \<^verbatim>\<open>struct hpd_ops\<close>, renamed apart from the field \<^verbatim>\<open>shutdown\<close> of the context.
\<close>

record 'd hpd_data =
  dwork :: "nat option"
  shutdown :: c_int
  state :: c_int
  pending_hpd_evt :: c_int
  drv_data :: 'd
  ops :: "'d hpd_ops"
  edid_reads :: c_int
  trace :: "event list"

subsection \<open>Kernel primitives\<close>

text \<open>
  Modelled from the spec: the workqueue primitives \<^verbatim>\<open>cancel_delayed_work\<close>,
  \<^verbatim>\<open>cancel_delayed_work_sync\<close> and \<^verbatim>\<open>schedule_delayed_work\<close> belong to the kernel, not
  to the repository. They follow the contract the specification assumes of the timer
  primitive: cancelling removes a pending callback; scheduling queues the callback
  after the given number of milliseconds unless it is already pending. The delay is
  kept in milliseconds (\<^verbatim>\<open>msecs_to_jiffies\<close> takes it as an \<^verbatim>\<open>unsigned int\<close>).
\<close>

definition cancel_delayed_work :: "'d hpd_data \<Rightarrow> 'd hpd_data" where
  "cancel_delayed_work d = d\<lparr>dwork := None, trace := Cancel_delayed_work # trace d\<rparr>"

definition cancel_delayed_work_sync :: "'d hpd_data \<Rightarrow> 'd hpd_data" where
  "cancel_delayed_work_sync d =
     d\<lparr>dwork := None, trace := Cancel_delayed_work_sync # trace d\<rparr>"

definition schedule_delayed_work :: "'d hpd_data \<Rightarrow> nat \<Rightarrow> 'd hpd_data" where
  "schedule_delayed_work d ms =
     d\<lparr>dwork := (case dwork d of None \<Rightarrow> Some ms | Some t \<Rightarrow> Some t),
       trace := Schedule_delayed_work ms # trace d\<rparr>"

definition printk :: "log_msg \<Rightarrow> 'd hpd_data \<Rightarrow> 'd hpd_data" where
  "printk m d = d\<lparr>trace := Printk m # trace d\<rparr>"

text \<open>
  A call through a function pointer of \<^verbatim>\<open>struct hpd_ops\<close>, with \<^verbatim>\<open>data->drv_data\<close> as
  its argument: \<open>call_hook\<close> for an operation returning \<^verbatim>\<open>void\<close>, \<open>call_op\<close> for one
  that returns a value (\<^verbatim>\<open>NULL\<close> is dereferenced when the pointer is absent).
\<close>

definition call_hook :: "('d \<Rightarrow> 'd) \<Rightarrow> event \<Rightarrow> 'd hpd_data \<Rightarrow> 'd hpd_data" where
  "call_hook f e d = d\<lparr>drv_data := f (drv_data d), trace := e # trace d\<rparr>"

definition call_op ::
  "('d \<Rightarrow> 'r \<times> 'd) option \<Rightarrow> ('r \<Rightarrow> event) \<Rightarrow> 'd hpd_data \<Rightarrow> fault + ('r \<times> 'd hpd_data)"
where
  "call_op fp ev d =
     (case fp of
        None \<Rightarrow> Inl Null_call
      | Some f \<Rightarrow>
          (case f (drv_data d) of
             (r, x) \<Rightarrow> Inr (r, d\<lparr>drv_data := x, trace := ev r # trace d\<rparr>)))"

subsection \<open>The scheduling step and the commit of a transition\<close>

definition sched_hpd_work :: "'d hpd_data \<Rightarrow> c_int \<Rightarrow> 'd hpd_data" where
  "sched_hpd_work d resched_time =
     (let d1 = cancel_delayed_work d
      in if 0 \<le>s resched_time \<and> shutdown d1 = 0
         then schedule_delayed_work d1 (unat resched_time)
         else d1)"

definition set_hpd_state :: "'d hpd_data \<Rightarrow> c_int \<Rightarrow> c_int \<Rightarrow> fault + 'd hpd_data" where
  "set_hpd_state d target_state resched_time =
     (case state_names_at (state d) of
        Inl e \<Rightarrow> Inl e
      | Inr cur_name \<Rightarrow>
          (case state_names_at target_state of
             Inl e \<Rightarrow> Inl e
           | Inr tgt_name \<Rightarrow>
               (let d1 = printk (Info_switching (state d) cur_name target_state tgt_name) d;
                    d2 = d1\<lparr>state := target_state\<rparr>
                in Inr (if pending_hpd_evt d2 = 0
                        then sched_hpd_work d2 resched_time
                        else d2))))"

subsection \<open>The state handlers\<close>

definition hpd_disable :: "'d hpd_data \<Rightarrow> 'd hpd_data" where
  "hpd_disable d =
     (case disable (ops d) of None \<Rightarrow> d | Some f \<Rightarrow> call_hook f Op_disable d)"

definition hpd_reset_state :: "'d hpd_data \<Rightarrow> fault + 'd hpd_data" where
  "hpd_reset_state d = set_hpd_state (hpd_disable d) STATE_PLUG CHECK_PLUG_STATE_DELAY_MS"

definition hpd_plug_state :: "'d hpd_data \<Rightarrow> fault + 'd hpd_data" where
  "hpd_plug_state d =
     (case call_op (get_hpd_state (ops d)) Op_get_hpd_state d of
        Inl e \<Rightarrow> Inl e
      | Inr (hpd, d1) \<Rightarrow>
          if hpd
          then set_hpd_state (d1\<lparr>edid_reads := 0\<rparr>) STATE_CHECK_EDID CHECK_EDID_DELAY_MS
          else set_hpd_state (hpd_disable d1) STATE_DONE_DISABLED (- 1))"

text \<open>The label \<^verbatim>\<open>end_disabled\<close> of \<^verbatim>\<open>edid_check_state\<close>.\<close>

definition end_disabled :: "'d hpd_data \<Rightarrow> fault + 'd hpd_data" where
  "end_disabled d = set_hpd_state (hpd_disable d) STATE_DONE_DISABLED (- 1)"

definition edid_check_state :: "'d hpd_data \<Rightarrow> fault + 'd hpd_data" where
  "edid_check_state d =
     (case call_op (get_hpd_state (ops d)) Op_get_hpd_state d of
        Inl e \<Rightarrow> Inl e
      | Inr (hpd, d1) \<Rightarrow>
          if \<not> hpd then end_disabled (printk Info_dropped_abort d1)
          else
            (case call_op (edid_read (ops d1)) Op_edid_read d1 of
               Inl e \<Rightarrow> Inl e
             | Inr (ok, d2) \<Rightarrow>
                 if \<not> ok then
                   (let d3 = d2\<lparr>edid_reads := edid_reads d2 + 1\<rparr>
                    in if MAX_EDID_READ_ATTEMPTS \<le>s edid_reads d3
                       then end_disabled (printk (Info_read_giving_up (edid_reads d3)) d3)
                       else set_hpd_state d3 STATE_CHECK_EDID CHECK_EDID_DELAY_MS)
                 else
                   (let d3 = (case edid_ready (ops d2) of
                                None \<Rightarrow> d2
                              | Some f \<Rightarrow> call_hook f Op_edid_ready d2)
                    in set_hpd_state d3 STATE_DONE_ENABLED (- 1))))"

definition wait_for_hpd_reassert_state :: "'d hpd_data \<Rightarrow> fault + 'd hpd_data" where
  "wait_for_hpd_reassert_state d = set_hpd_state d STATE_HPD_RESET 0"

definition edid_recheck_state :: "'d hpd_data \<Rightarrow> fault + 'd hpd_data" where
  "edid_recheck_state d =
     (let tgt_state = STATE_HPD_RESET; timeout = 0
      in case call_op (edid_recheck (ops d)) Op_edid_recheck d of
           Inl e \<Rightarrow> Inl e
         | Inr (status, d1) \<Rightarrow>
             if status = - 1 then
               (let d2 = d1\<lparr>edid_reads := edid_reads d1 + 1\<rparr>
                in if MAX_EDID_READ_ATTEMPTS \<le>s edid_reads d2
                   then set_hpd_state (printk (Info_retry_giving_up (edid_reads d2)) d2)
                          tgt_state timeout
                   else set_hpd_state d2 STATE_RECHECK_EDID CHECK_EDID_DELAY_MS)
             else if status = 0 then
               set_hpd_state (printk Info_no_edid_change d1) STATE_DONE_ENABLED (- 1)
             else set_hpd_state d1 tgt_state timeout)"

definition state_machine_dispatch :: "('d hpd_data \<Rightarrow> fault + 'd hpd_data) option list" where
  "state_machine_dispatch =
     [Some hpd_reset_state,
      Some hpd_plug_state,
      Some edid_check_state,
      None,
      None,
      Some wait_for_hpd_reassert_state,
      Some edid_recheck_state,
      None]"

subsection \<open>Event interpretation and the worker\<close>

definition handle_hpd_evt :: "'d hpd_data \<Rightarrow> c_int \<Rightarrow> fault + 'd hpd_data" where
  "handle_hpd_evt d cur_hpd =
     (if STATE_DONE_ENABLED = state d \<and> cur_hpd = 0 then
        set_hpd_state d STATE_WAIT_FOR_HPD_REASSERT HPD_DROP_TIMEOUT_MS
      else if STATE_WAIT_FOR_HPD_REASSERT = state d \<and> cur_hpd \<noteq> 0 then
        set_hpd_state (d\<lparr>edid_reads := 0\<rparr>) STATE_RECHECK_EDID CHECK_EDID_DELAY_MS
      else if STATE_DONE_ENABLED = state d \<and> cur_hpd \<noteq> 0 then
        Inr (printk Info_ignoring_bounce d)
      else if STATE_INIT_FROM_BOOTLOADER = state d \<and> cur_hpd \<noteq> 0 then
        set_hpd_state d STATE_PLUG HPD_STABILIZE_MS
      else
        set_hpd_state d STATE_HPD_RESET HPD_STABILIZE_MS)"

text \<open>
  The worker first observes and clears the pending flag under the lock
  (\<open>hpd_worker_latch\<close>), then releases the lock and does the rest with the observed
  value (\<open>hpd_worker_body\<close>). A notification can take the lock between the two.
  In \<^verbatim>\<open>data->state < ARRAY_SIZE(state_machine_dispatch)\<close> the \<^verbatim>\<open>int\<close> is converted to
  \<^verbatim>\<open>size_t\<close> (sign extension, then an unsigned comparison).
\<close>

definition hpd_worker_latch :: "'d hpd_data \<Rightarrow> c_int \<times> 'd hpd_data" where
  "hpd_worker_latch d = (pending_hpd_evt d, d\<lparr>pending_hpd_evt := 0\<rparr>)"

definition hpd_worker_body :: "'d hpd_data \<Rightarrow> c_int \<Rightarrow> fault + 'd hpd_data" where
  "hpd_worker_body d pending =
     (case call_op (get_hpd_state (ops d)) Op_get_hpd_state d of
        Inl e \<Rightarrow> Inl e
      | Inr (hpd, d1) \<Rightarrow>
          (let cur_hpd = (if hpd then 1 else 0)
           in case state_names_at (state d1) of
                Inl e \<Rightarrow> Inl e
              | Inr name \<Rightarrow>
                  (let d2 = printk (Info_worker (state d1) name cur_hpd pending) d1
                   in if pending \<noteq> 0 then handle_hpd_evt d2 cur_hpd
                      else if (scast (state d2) :: size_t)
                                < of_nat (length (state_machine_dispatch
                                    :: ('d hpd_data \<Rightarrow> fault + 'd hpd_data) option list))
                      then (case state_machine_dispatch ! unat (state d2) of
                              None \<Rightarrow> Inr (printk (Warn_null_handler (state d2)) d2)
                            | Some func \<Rightarrow> func d2)
                      else Inr (printk (Warn_unexpected_state (state d2)) d2))))"

definition hpd_worker :: "'d hpd_data \<Rightarrow> fault + 'd hpd_data" where
  "hpd_worker d = (case hpd_worker_latch d of (pending, d1) \<Rightarrow> hpd_worker_body d1 pending)"

subsection \<open>Entry points\<close>

definition hpd_shutdown :: "'d hpd_data \<Rightarrow> 'd hpd_data" where
  "hpd_shutdown d =
     (let d1 = d\<lparr>shutdown := 1\<rparr>;
          d2 = cancel_delayed_work_sync d1
      in case shutdown_op (ops d2) of
           None \<Rightarrow> d2
         | Some f \<Rightarrow> call_hook f Op_shutdown d2)"

definition hpd_set_pending_evt :: "'d hpd_data \<Rightarrow> 'd hpd_data" where
  "hpd_set_pending_evt d = sched_hpd_work (d\<lparr>pending_hpd_evt := 1\<rparr>) 0"

text \<open>
  \<^verbatim>\<open>hpd_init\<close> takes two pointers that \<^verbatim>\<open>BUG_ON\<close> tests against \<^verbatim>\<open>NULL\<close>: the context and
  the operations. The \<^verbatim>\<open>init\<close> operation is called with the argument \<^verbatim>\<open>drv_data\<close>
  before any field is written; \<^verbatim>\<open>INIT_DELAYED_WORK\<close> leaves the work item not pending.
\<close>

definition hpd_init ::
  "'d hpd_data option \<Rightarrow> 'd \<Rightarrow> 'd hpd_ops option \<Rightarrow> fault + 'd hpd_data"
where
  "hpd_init data drv ops_ptr =
     (case data of
        None \<Rightarrow> Inl BUG
      | Some d \<Rightarrow>
          (case ops_ptr of
             None \<Rightarrow> Inl BUG
           | Some opv \<Rightarrow>
               if get_hpd_state opv = None \<or> edid_read opv = None
                  \<or> edid_ready opv = None \<or> edid_recheck opv = None
               then Inl BUG
               else
                 (let d1 = (case init opv of
                              None \<Rightarrow> d\<lparr>drv_data := drv\<rparr>
                            | Some f \<Rightarrow> d\<lparr>drv_data := f drv, trace := Op_init # trace d\<rparr>)
                  in Inr (d1\<lparr>state := STATE_INIT_FROM_BOOTLOADER,
                              pending_hpd_evt := 0,
                              shutdown := 0,
                              ops := opv,
                              edid_reads := 0,
                              dwork := None\<rparr>))))"

subsection \<open>Runs of the whole driver\<close>

text \<open>
  \<open>sched_hpd_work_test\<close> is \<open>sched_hpd_work\<close> up to and including its test of the delay
  and of the shutdown flag: it returns the context after the cancellation and the
  delay (in milliseconds) that \<^verbatim>\<open>schedule_delayed_work\<close> is about to be called with, if
  any. \<^verbatim>\<open>hpd_shutdown\<close> writes the flag without taking the lock, so the flag can change
  between the test and the call.
\<close>

definition sched_hpd_work_test :: "'d hpd_data \<Rightarrow> c_int \<Rightarrow> 'd hpd_data \<times> nat option" where
  "sched_hpd_work_test d resched_time =
     (let d1 = cancel_delayed_work d
      in (d1, if 0 \<le>s resched_time \<and> shutdown d1 = 0
              then Some (unat resched_time) else None))"

text \<open>
  Modelled from the spec: the work queue that calls \<^verbatim>\<open>hpd_worker\<close> belongs to the
  kernel, not to the repository. The steps follow the scheduling model of the
  specification (one worker per context, never two invocations at a time, and
  notifications from any context at any time).
  A system state is the context together with the phase of the worker and the
  notification in flight. The phase is \<open>Idle\<close>; \<open>Dequeued\<close>, when the kernel has taken
  the work item off the queue and is about to call \<^verbatim>\<open>hpd_worker\<close> (the item can be
  queued again from here on, and a cancellation no longer reaches this run); or
  \<open>Latched p\<close>, when the worker has observed the pending flag as \<open>p\<close> and released the
  lock. \<open>notifier\<close> is \<open>Some ms\<close> while a call of \<^verbatim>\<open>hpd_set_pending_evt\<close> holds the lock,
  has passed the test of \<open>sched_hpd_work\<close> and has not yet called
  \<^verbatim>\<open>schedule_delayed_work\<close>.
  A step is: the first part of a notification (set the flag, cancel, test); its second
  part (the scheduling call, which releases the lock); the expiry of the timer; the
  latch of the worker; the rest of the worker; the first statement of \<^verbatim>\<open>hpd_shutdown\<close>
  (the flag, written without the lock, so enabled at any moment); or the rest of
  \<^verbatim>\<open>hpd_shutdown\<close>, which takes no lock either and which \<^verbatim>\<open>cancel_delayed_work_sync\<close>
  holds back until no worker is running (\<open>hpd_shutdown\<close> writes the flag again, to the
  same value). The steps that take the lock (both parts of the worker, the first part
  of a notification) wait while a notification holds it. Time is abstracted: a
  pending callback may expire at any moment. The kernel never runs the work item again
  before the running worker has returned. A step that is not enabled leaves the state
  as it is.
  The rest of the worker is one step although its commit also tests the flag before
  it schedules: the worker reads the flag nowhere else and the rest of \<^verbatim>\<open>hpd_shutdown\<close>
  waits for it, so a flag written between the worker's test and its scheduling call
  leaves the state that the step \<open>Worker_runs\<close> followed by \<open>Shutdown_begins\<close> leaves.
\<close>

datatype worker_phase = Idle | Dequeued | Latched c_int

record 'd hpd_sys =
  ctx :: "'d hpd_data"
  phase :: worker_phase
  notifier :: "nat option"

datatype hpd_step =
    Notify_begins | Notify_schedules
  | Timer_expires | Worker_latches | Worker_runs
  | Shutdown_begins | Shutdown_completes

fun sys_step :: "hpd_step \<Rightarrow> 'd hpd_sys \<Rightarrow> fault + 'd hpd_sys" where
  "sys_step Notify_begins s =
     (if notifier s = None
      then (case sched_hpd_work_test ((ctx s)\<lparr>pending_hpd_evt := 1\<rparr>) 0 of
              (d, decision) \<Rightarrow> Inr (s\<lparr>ctx := d, notifier := decision\<rparr>))
      else Inr s)"
| "sys_step Notify_schedules s =
     (case notifier s of
        None \<Rightarrow> Inr s
      | Some ms \<Rightarrow> Inr (s\<lparr>ctx := schedule_delayed_work (ctx s) ms, notifier := None\<rparr>))"
| "sys_step Timer_expires s =
     (if dwork (ctx s) \<noteq> None \<and> phase s = Idle
      then Inr (s\<lparr>ctx := (ctx s)\<lparr>dwork := None\<rparr>, phase := Dequeued\<rparr>)
      else Inr s)"
| "sys_step Worker_latches s =
     (if notifier s = None
      then (case phase s of
              Dequeued \<Rightarrow>
                (case hpd_worker_latch (ctx s) of
                   (pending, d) \<Rightarrow> Inr (s\<lparr>ctx := d, phase := Latched pending\<rparr>))
            | _ \<Rightarrow> Inr s)
      else Inr s)"
| "sys_step Worker_runs s =
     (if notifier s = None
      then (case phase s of
              Latched pending \<Rightarrow>
                (case hpd_worker_body (ctx s) pending of
                   Inl e \<Rightarrow> Inl e
                 | Inr d \<Rightarrow> Inr (s\<lparr>ctx := d, phase := Idle\<rparr>))
            | _ \<Rightarrow> Inr s)
      else Inr s)"
| "sys_step Shutdown_begins s = Inr (s\<lparr>ctx := (ctx s)\<lparr>shutdown := 1\<rparr>\<rparr>)"
| "sys_step Shutdown_completes s =
     (if phase s = Idle then Inr (s\<lparr>ctx := hpd_shutdown (ctx s)\<rparr>) else Inr s)"

fun run :: "hpd_step list \<Rightarrow> 'd hpd_sys \<Rightarrow> fault + 'd hpd_sys" where
  "run [] s = Inr s"
| "run (a # as) s = (case sys_step a s of Inl e \<Rightarrow> Inl e | Inr s' \<Rightarrow> run as s')"


subsection \<open>Predicates on contexts\<close>

definition valid_state :: "c_int \<Rightarrow> bool" where
  "valid_state s = (0 \<le>s s \<and> s <s HPD_STATE_COUNT)"

definition mandatory_ops :: "'d hpd_ops \<Rightarrow> bool" where
  "mandatory_ops opv =
     (get_hpd_state opv \<noteq> None \<and> edid_read opv \<noteq> None
      \<and> edid_ready opv \<noteq> None \<and> edid_recheck opv \<noteq> None)"

subsection \<open>What a commit leaves behind\<close>

text \<open>
  \<open>resched_outcome d t\<close> is the delayed work after a transition has been committed in
  context \<open>d\<close> with the requested delay \<open>t\<close>: untouched when an event is pending,
  otherwise re-armed after \<open>t\<close> milliseconds, or only cancelled when \<open>t\<close> is negative
  ("none") or shutdown has been requested. \<open>committed d tgt t\<close> is the whole context after
  that commit, for states inside the name table.
\<close>

definition resched_outcome :: "'d hpd_data \<Rightarrow> c_int \<Rightarrow> nat option" where
  "resched_outcome d t =
     (if pending_hpd_evt d \<noteq> 0 then dwork d
      else if 0 \<le>s t \<and> shutdown d = 0 then Some (unat t) else None)"

definition committed :: "'d hpd_data \<Rightarrow> c_int \<Rightarrow> c_int \<Rightarrow> 'd hpd_data" where
  "committed d tgt t =
     (let d2 = (printk (Info_switching (state d) (state_names ! unat (state d))
                          tgt (state_names ! unat tgt)) d)\<lparr>state := tgt\<rparr>
      in if pending_hpd_evt d = 0 then sched_hpd_work d2 t else d2)"

subsection \<open>Invariants of a run\<close>

text \<open>
  \<open>retrying_state\<close>: the two states that count failed reads.
  \<open>fresh_attempt s s'\<close>: a transition that begins a fresh read attempt.
  \<open>worker_effect p d d'\<close> collects what one run of the worker's body, with latched
  flag \<open>p\<close>, may do to a context \<open>d\<close>. \<open>sys_inv w\<close> is the invariant of a run that
  starts from an initialized context whose trace holds \<open>w\<close> defensive warnings.
\<close>

definition retrying_state :: "c_int \<Rightarrow> bool" where
  "retrying_state s = (s = STATE_CHECK_EDID \<or> s = STATE_RECHECK_EDID)"

definition fresh_attempt :: "c_int \<Rightarrow> c_int \<Rightarrow> bool" where
  "fresh_attempt s s' =
     ((s = STATE_PLUG \<and> s' = STATE_CHECK_EDID)
      \<or> (s = STATE_WAIT_FOR_HPD_REASSERT \<and> s' = STATE_RECHECK_EDID))"

definition worker_effect :: "c_int \<Rightarrow> 'd hpd_data \<Rightarrow> 'd hpd_data \<Rightarrow> bool" where
  "worker_effect p d d' =
     (valid_state (state d') \<and> ops d' = ops d \<and>
      pending_hpd_evt d' = pending_hpd_evt d \<and> shutdown d' = shutdown d \<and>
      (state d' = STATE_INIT_FROM_BOOTLOADER \<longrightarrow>
         p = 0 \<and> state d = STATE_INIT_FROM_BOOTLOADER) \<and>
      (p \<noteq> 0 \<or> state d \<noteq> STATE_INIT_FROM_BOOTLOADER \<longrightarrow>
         count_ev is_defensive_warning (trace d') = count_ev is_defensive_warning (trace d)) \<and>
      (shutdown d \<noteq> 0 \<longrightarrow>
         count_ev is_schedule (trace d') = count_ev is_schedule (trace d) \<and>
         (dwork d' = None \<or> dwork d' = dwork d)) \<and>
      (if fresh_attempt (state d) (state d') then edid_reads d' = 0
       else if edid_reads d' = edid_reads d then \<not> retrying_state (state d')
       else edid_reads d' = edid_reads d + 1 \<and> retrying_state (state d) \<and>
            (if edid_reads d + 1 <s MAX_EDID_READ_ATTEMPTS then state d' = state d
             else \<not> retrying_state (state d'))))"

definition sys_inv :: "nat \<Rightarrow> 'd hpd_sys \<Rightarrow> bool" where
  "sys_inv w s =
     (valid_state (state (ctx s)) \<and> mandatory_ops (ops (ctx s)) \<and>
      0 \<le> sint (edid_reads (ctx s)) \<and> sint (edid_reads (ctx s)) \<le> 5 \<and>
      (retrying_state (state (ctx s)) \<longrightarrow> sint (edid_reads (ctx s)) < 5) \<and>
      count_ev is_defensive_warning (trace (ctx s)) = w \<and>
      (notifier s \<noteq> None \<longrightarrow> pending_hpd_evt (ctx s) \<noteq> 0) \<and>
      (state (ctx s) = STATE_INIT_FROM_BOOTLOADER \<longrightarrow>
         (case phase s of
            Idle \<Rightarrow> dwork (ctx s) \<noteq> None \<longrightarrow> pending_hpd_evt (ctx s) \<noteq> 0
          | Dequeued \<Rightarrow> pending_hpd_evt (ctx s) \<noteq> 0
          | Latched p \<Rightarrow> p \<noteq> 0)))"

subsection \<open>Concrete clients\<close>

text \<open>
  A client whose private data counts the calls made to it; its signal, its read result
  and its recheck result are fixed by the three parameters.
\<close>

definition demo_ops :: "bool \<Rightarrow> bool \<Rightarrow> c_int \<Rightarrow> nat hpd_ops" where
  "demo_ops hpd ok status =
     \<lparr>init = Some Suc,
      get_hpd_state = Some (\<lambda>x. (hpd, Suc x)),
      disable = Some Suc,
      edid_read = Some (\<lambda>x. (ok, Suc x)),
      edid_ready = Some Suc,
      edid_recheck = Some (\<lambda>x. (status, Suc x)),
      shutdown_op = Some Suc\<rparr>"

definition demo_data :: "nat hpd_ops \<Rightarrow> c_int \<Rightarrow> c_int \<Rightarrow> c_int \<Rightarrow> c_int \<Rightarrow> nat hpd_data" where
  "demo_data opv st reads pend shut =
     \<lparr>dwork = None, shutdown = shut, state = st, pending_hpd_evt = pend,
      drv_data = 0, ops = opv, edid_reads = reads, trace = []\<rparr>"

section \<open>Basic facts\<close>

lemma word_of_sint: "sint (s :: c_int) = k \<Longrightarrow> s = word_of_int k"
  by auto

lemma valid_state_cases:
  assumes "valid_state s"
  shows "s = 0 \<or> s = 1 \<or> s = 2 \<or> s = 3 \<or> s = 4 \<or> s = 5 \<or> s = 6 \<or> s = 7"
proof -
  from assms have "0 \<le> sint s" "sint s < 8"
    by (simp_all add: valid_state_def word_sle_eq word_sless_alt)
  then have "sint s = 0 \<or> sint s = 1 \<or> sint s = 2 \<or> sint s = 3
             \<or> sint s = 4 \<or> sint s = 5 \<or> sint s = 6 \<or> sint s = 7"
    by arith
  then show ?thesis
    by (elim disjE) (drule word_of_sint, simp)+
qed

lemma valid_state_numerals [simp]:
  "valid_state 0" "valid_state 1" "valid_state 2" "valid_state 3"
  "valid_state 4" "valid_state 5" "valid_state 6" "valid_state 7"
  "\<not> valid_state 8" "\<not> valid_state (- 1)"
  by (simp_all add: valid_state_def word_sle_eq word_sless_alt)

lemma valid_state_sint: "valid_state s = (0 \<le> sint s \<and> sint s < 8)"
  by (simp add: valid_state_def word_sle_eq word_sless_alt)

lemma state_names_at_valid:
  "valid_state s \<Longrightarrow> state_names_at s = Inr (state_names ! unat s)"
  by (simp add: state_names_at_def valid_state_sint word_sle_eq state_names_def)

lemma state_names_at_invalid:
  "\<not> valid_state s \<Longrightarrow> state_names_at s = Inl Out_of_bounds_read"
  by (auto simp add: state_names_at_def valid_state_sint word_sle_eq state_names_def)

lemma uint_scast_size_t: "uint (scast (s :: c_int) :: size_t) = sint s mod 2 ^ 64"
  unfolding scast_eq uint_word_of_int_eq take_bit_eq_mod by simp

lemma uint_scast_nonneg:
  assumes "0 \<le> sint (s :: c_int)"
  shows "uint (scast s :: size_t) = sint s"
proof -
  have "sint s < 2 ^ 31" using sint_lt [of s] by simp
  then have "sint s < 2 ^ 64" by (rule less_le_trans) simp
  then show ?thesis using assms by (simp only: uint_scast_size_t mod_pos_pos_trivial)
qed

lemma uint_scast_neg:
  assumes "\<not> 0 \<le> sint (s :: c_int)"
  shows "uint (scast s :: size_t) = sint s + 2 ^ 64"
proof -
  have lo: "- (2 ^ 31) \<le> sint s" using sint_ge [of s] by simp
  have "(2 :: int) ^ 31 \<le> 2 ^ 64" by (rule power_increasing) simp_all
  then have b: "0 \<le> sint s + 2 ^ 64" using lo by linarith
  have c: "sint s + 2 ^ 64 < 2 ^ 64" using assms by linarith
  have "sint s mod 2 ^ 64 = (sint s + 2 ^ 64) mod 2 ^ 64" by (simp only: mod_add_self2)
  also have "\<dots> = sint s + 2 ^ 64" using b c by (rule mod_pos_pos_trivial)
  finally show ?thesis by (simp only: uint_scast_size_t)
qed

lemma scast_less_8: "((scast (s :: c_int) :: size_t) < 8) = valid_state s"
proof (cases "0 \<le> sint s")
  case True
  have "uint (8 :: size_t) = 8" by simp
  then show ?thesis using True uint_scast_nonneg [OF True]
    by (simp only: word_less_def valid_state_sint) simp
next
  case False
  have lo: "- (2 ^ 31) \<le> sint s" using sint_ge [of s] by simp
  have "(2 :: int) ^ 31 + 8 \<le> 2 ^ 64" by simp
  then have "\<not> sint s + 2 ^ 64 < 8" using lo by linarith
  moreover have "uint (8 :: size_t) = 8" by simp
  ultimately show ?thesis using False uint_scast_neg [OF False]
    by (simp only: word_less_def valid_state_sint) simp
qed

lemma dispatch_bound:
  "((scast (s :: c_int) :: size_t)
      < of_nat (length (state_machine_dispatch :: ('d hpd_data \<Rightarrow> fault + 'd hpd_data) option list)))
   = valid_state s"
  using scast_less_8 [of s] by (simp add: state_machine_dispatch_def)

lemma set_hpd_state_valid:
  assumes "valid_state (state d)" and "valid_state tgt"
  shows "set_hpd_state d tgt t = Inr (committed d tgt t)"
  using assms
  by (simp add: set_hpd_state_def committed_def state_names_at_valid printk_def Let_def)

lemma set_hpd_state_invalid:
  "\<not> valid_state (state d) \<Longrightarrow> set_hpd_state d tgt t = Inl Out_of_bounds_read"
  by (simp add: set_hpd_state_def state_names_at_invalid)

lemma sched_hpd_work_fields [simp]:
  "state (sched_hpd_work d t) = state d"
  "shutdown (sched_hpd_work d t) = shutdown d"
  "pending_hpd_evt (sched_hpd_work d t) = pending_hpd_evt d"
  "edid_reads (sched_hpd_work d t) = edid_reads d"
  "ops (sched_hpd_work d t) = ops d"
  "drv_data (sched_hpd_work d t) = drv_data d"
  by (simp_all add: sched_hpd_work_def cancel_delayed_work_def schedule_delayed_work_def Let_def)

lemma sched_hpd_work_dwork:
  "dwork (sched_hpd_work d t) = (if 0 \<le>s t \<and> shutdown d = 0 then Some (unat t) else None)"
  by (simp add: sched_hpd_work_def cancel_delayed_work_def schedule_delayed_work_def Let_def)

lemma sched_hpd_work_trace:
  "trace (sched_hpd_work d t) =
     (if 0 \<le>s t \<and> shutdown d = 0
      then Schedule_delayed_work (unat t) # Cancel_delayed_work # trace d
      else Cancel_delayed_work # trace d)"
  by (simp add: sched_hpd_work_def cancel_delayed_work_def schedule_delayed_work_def Let_def)

lemma printk_fields [simp]:
  "state (printk m d) = state d"
  "shutdown (printk m d) = shutdown d"
  "pending_hpd_evt (printk m d) = pending_hpd_evt d"
  "edid_reads (printk m d) = edid_reads d"
  "ops (printk m d) = ops d"
  "drv_data (printk m d) = drv_data d"
  "dwork (printk m d) = dwork d"
  "trace (printk m d) = Printk m # trace d"
  by (simp_all add: printk_def)

lemma hpd_disable_fields [simp]:
  "state (hpd_disable d) = state d"
  "shutdown (hpd_disable d) = shutdown d"
  "pending_hpd_evt (hpd_disable d) = pending_hpd_evt d"
  "edid_reads (hpd_disable d) = edid_reads d"
  "ops (hpd_disable d) = ops d"
  "dwork (hpd_disable d) = dwork d"
  by (simp_all add: hpd_disable_def call_hook_def split: option.splits)

lemma hpd_disable_trace:
  "trace (hpd_disable d) =
     (case disable (ops d) of None \<Rightarrow> trace d | Some f \<Rightarrow> Op_disable # trace d)"
  by (simp add: hpd_disable_def call_hook_def split: option.splits)

lemma committed_fields [simp]:
  "state (committed d tgt t) = tgt"
  "shutdown (committed d tgt t) = shutdown d"
  "pending_hpd_evt (committed d tgt t) = pending_hpd_evt d"
  "edid_reads (committed d tgt t) = edid_reads d"
  "ops (committed d tgt t) = ops d"
  "drv_data (committed d tgt t) = drv_data d"
  by (simp_all add: committed_def Let_def)

lemma committed_dwork [simp]: "dwork (committed d tgt t) = resched_outcome d t"
  by (simp add: committed_def resched_outcome_def Let_def sched_hpd_work_dwork)

lemma committed_filter:
  assumes "\<And>m. \<not> P (Printk m)"
  shows "filter P (trace (committed d tgt t)) =
           (if pending_hpd_evt d \<noteq> 0 then []
            else if 0 \<le>s t \<and> shutdown d = 0
                 then filter P [Schedule_delayed_work (unat t), Cancel_delayed_work]
                 else filter P [Cancel_delayed_work])
           @ filter P (trace d)"
  using assms by (simp add: committed_def Let_def sched_hpd_work_trace)

lemma committed_op_calls [simp]:
  "filter is_op_call (trace (committed d tgt t)) = filter is_op_call (trace d)"
  by (simp add: committed_filter)

lemma committed_sched_calls:
  "filter is_sched_call (trace (committed d tgt t)) =
     (if pending_hpd_evt d \<noteq> 0 then []
      else if 0 \<le>s t \<and> shutdown d = 0
           then [Schedule_delayed_work (unat t), Cancel_delayed_work]
           else [Cancel_delayed_work])
     @ filter is_sched_call (trace d)"
  by (simp add: committed_filter)

lemma committed_count [simp]:
  "count_ev is_edid_read (trace (committed d tgt t)) = count_ev is_edid_read (trace d)"
  "count_ev is_disable (trace (committed d tgt t)) = count_ev is_disable (trace d)"
  by (simp_all add: count_ev_def committed_filter)

lemma committed_count_defensive [simp]:
  "count_ev is_defensive_warning (trace (committed d tgt t)) = count_ev is_defensive_warning (trace d)"
  by (simp add: count_ev_def committed_def Let_def sched_hpd_work_trace)

lemma committed_count_schedule:
  "count_ev is_schedule (trace (committed d tgt t)) =
     (if pending_hpd_evt d = 0 \<and> 0 \<le>s t \<and> shutdown d = 0 then 1 else 0)
     + count_ev is_schedule (trace d)"
  by (simp add: count_ev_def committed_filter)

lemma resched_outcome_consts:
  "resched_outcome d (- 1) = (if pending_hpd_evt d \<noteq> 0 then dwork d else None)"
  "resched_outcome d 0 =
     (if pending_hpd_evt d \<noteq> 0 then dwork d else if shutdown d = 0 then Some 0 else None)"
  "resched_outcome d CHECK_PLUG_STATE_DELAY_MS =
     (if pending_hpd_evt d \<noteq> 0 then dwork d else if shutdown d = 0 then Some 10 else None)"
  "resched_outcome d HPD_STABILIZE_MS =
     (if pending_hpd_evt d \<noteq> 0 then dwork d else if shutdown d = 0 then Some 40 else None)"
  "resched_outcome d CHECK_EDID_DELAY_MS =
     (if pending_hpd_evt d \<noteq> 0 then dwork d else if shutdown d = 0 then Some 60 else None)"
  "resched_outcome d HPD_DROP_TIMEOUT_MS =
     (if pending_hpd_evt d \<noteq> 0 then dwork d else if shutdown d = 0 then Some 1500 else None)"
  by (simp_all add: resched_outcome_def word_sle_eq)

lemma call_op_Some:
  "fp = Some f \<Longrightarrow> f (drv_data d) = (r, x) \<Longrightarrow>
   call_op fp ev d = Inr (r, d\<lparr>drv_data := x, trace := ev r # trace d\<rparr>)"
  by (simp add: call_op_def)

lemma hpd_worker_body_pending:
  assumes "pending \<noteq> 0" and "valid_state (state d)"
    and "get_hpd_state (ops d) = Some g" and "g (drv_data d) = (hpd, x)"
  shows "hpd_worker_body d pending =
           handle_hpd_evt
             (d\<lparr>drv_data := x,
                trace := Printk (Info_worker (state d) (state_names ! unat (state d))
                                   (if hpd then 1 else 0) pending)
                         # Op_get_hpd_state hpd # trace d\<rparr>)
             (if hpd then 1 else 0)"
  using assms
  by (simp add: hpd_worker_body_def call_op_Some state_names_at_valid Let_def printk_def)

lemma hpd_worker_body_dispatch:
  assumes "valid_state (state d)"
    and "get_hpd_state (ops d) = Some g" and "g (drv_data d) = (hpd, x)"
  shows "hpd_worker_body d 0 =
           (let d2 = d\<lparr>drv_data := x,
                       trace := Printk (Info_worker (state d) (state_names ! unat (state d))
                                          (if hpd then 1 else 0) 0)
                                # Op_get_hpd_state hpd # trace d\<rparr>
            in case state_machine_dispatch ! unat (state d) of
                 None \<Rightarrow> Inr (printk (Warn_null_handler (state d)) d2)
               | Some func \<Rightarrow> func d2)"
  using assms
  by (simp add: hpd_worker_body_def call_op_Some state_names_at_valid Let_def printk_def
        dispatch_bound split: option.splits)

lemma hpd_worker_body_out_of_range:
  assumes "\<not> valid_state (state d)"
    and "get_hpd_state (ops d) = Some g"
  shows "hpd_worker_body d pending = Inl Out_of_bounds_read"
  using assms
  by (simp add: hpd_worker_body_def call_op_def state_names_at_invalid Let_def
           split: prod.splits)

lemma count_ev_simps [simp]:
  "count_ev P [] = 0"
  "count_ev P (e # tr) = (if P e then 1 else 0) + count_ev P tr"
  by (simp_all add: count_ev_def)

section \<open>Effects of the worker and invariants of runs\<close>

lemma hpd_disable_count [simp]:
  "count_ev is_defensive_warning (trace (hpd_disable d)) = count_ev is_defensive_warning (trace d)"
  "count_ev is_schedule (trace (hpd_disable d)) = count_ev is_schedule (trace d)"
  "count_ev is_edid_read (trace (hpd_disable d)) = count_ev is_edid_read (trace d)"
  by (simp_all add: hpd_disable_trace split: option.splits)

lemma retrying_state_simps [simp]:
  "\<not> retrying_state 0" "\<not> retrying_state 1" "retrying_state 2" "\<not> retrying_state 3"
  "\<not> retrying_state 4" "\<not> retrying_state 5" "retrying_state 6" "\<not> retrying_state 7"
  by (simp_all add: retrying_state_def)

lemma worker_effect_event:
  assumes v: "valid_state (state d)" and p: "p \<noteq> 0"
    and g: "get_hpd_state (ops d) = Some g"
  shows "\<exists>d'. hpd_worker_body d p = Inr d' \<and> worker_effect p d d'"
proof -
  obtain hpd x where x: "g (drv_data d) = (hpd, x)" by (cases "g (drv_data d)")
  show ?thesis
    unfolding hpd_worker_body_pending [OF p v g x]
    using v p
    by (auto simp add: handle_hpd_evt_def set_hpd_state_valid worker_effect_def
          resched_outcome_def committed_count_schedule fresh_attempt_def printk_def)
qed

lemma worker_effect_dispatch:
  assumes v: "valid_state (state d)" and m: "mandatory_ops (ops d)"
  shows "\<exists>d'. hpd_worker_body d 0 = Inr d' \<and> worker_effect 0 d d'"
proof -
  from m obtain g r rdy rc where
    g: "get_hpd_state (ops d) = Some g" and r: "edid_read (ops d) = Some r" and
    rdy: "edid_ready (ops d) = Some rdy" and rc: "edid_recheck (ops d) = Some rc"
    by (auto simp add: mandatory_ops_def)
  obtain hpd x where x: "g (drv_data d) = (hpd, x)" by (cases "g (drv_data d)")
  obtain hpd2 x2 where x2: "g x = (hpd2, x2)" by (cases "g x")
  obtain ok x3 where x3: "r x2 = (ok, x3)" by (cases "r x2")
  obtain status x4 where x4: "rc x = (status, x4)" by (cases "rc x")
  note body = hpd_worker_body_dispatch [OF v g x]
  from valid_state_cases [OF v] show ?thesis
  proof (elim disjE)
    assume s: "state d = 0"
    show ?thesis unfolding body using s
      by (simp add: state_machine_dispatch_def Let_def hpd_reset_state_def
            set_hpd_state_valid worker_effect_def resched_outcome_def
            committed_count_schedule fresh_attempt_def)
  next
    assume s: "state d = 1"
    show ?thesis unfolding body using s g x2
      by (simp add: state_machine_dispatch_def Let_def hpd_plug_state_def call_op_def
            set_hpd_state_valid worker_effect_def resched_outcome_def
            committed_count_schedule fresh_attempt_def)
  next
    assume s: "state d = 2"
    show ?thesis unfolding body using s g r rdy x2 x3
      by (simp add: state_machine_dispatch_def Let_def edid_check_state_def end_disabled_def
            call_op_def call_hook_def
            set_hpd_state_valid worker_effect_def resched_outcome_def
            committed_count_schedule fresh_attempt_def word_sle_eq word_sless_alt)
  next
    assume s: "state d = 3"
    show ?thesis unfolding body using s
      by (simp add: state_machine_dispatch_def Let_def worker_effect_def fresh_attempt_def printk_def)
  next
    assume s: "state d = 4"
    show ?thesis unfolding body using s
      by (simp add: state_machine_dispatch_def Let_def worker_effect_def fresh_attempt_def printk_def)
  next
    assume s: "state d = 5"
    show ?thesis unfolding body using s
      by (simp add: state_machine_dispatch_def Let_def wait_for_hpd_reassert_state_def
            set_hpd_state_valid worker_effect_def resched_outcome_def
            committed_count_schedule fresh_attempt_def)
  next
    assume s: "state d = 6"
    show ?thesis unfolding body using s rc x4
      by (simp add: state_machine_dispatch_def Let_def edid_recheck_state_def call_op_def
            set_hpd_state_valid worker_effect_def resched_outcome_def
            committed_count_schedule fresh_attempt_def word_sle_eq word_sless_alt)
  next
    assume s: "state d = 7"
    show ?thesis unfolding body using s
      by (simp add: state_machine_dispatch_def Let_def worker_effect_def fresh_attempt_def printk_def)
  qed
qed

lemma worker_effect_body:
  assumes "valid_state (state d)" and "mandatory_ops (ops d)"
  shows "\<exists>d'. hpd_worker_body d p = Inr d' \<and> worker_effect p d d'"
proof (cases "p = 0")
  case True
  with worker_effect_dispatch [OF assms] show ?thesis by simp
next
  case False
  from assms(2) obtain g where "get_hpd_state (ops d) = Some g"
    by (auto simp add: mandatory_ops_def)
  from worker_effect_event [OF assms(1) False this] show ?thesis .
qed

lemma sint_inc_below_5:
  assumes "0 \<le> sint (c :: c_int)" and "sint c < 5"
  shows "sint (c + 1) = sint c + 1"
proof -
  have "sint (c + 1) = signed_take_bit 31 (sint c + 1)" by (simp add: sint_word_ariths)
  also have "\<dots> = sint c + 1" using assms by (intro signed_take_bit_int_eq_self) simp_all
  finally show ?thesis .
qed

lemma hpd_set_pending_evt_fields [simp]:
  "state (hpd_set_pending_evt d) = state d"
  "shutdown (hpd_set_pending_evt d) = shutdown d"
  "pending_hpd_evt (hpd_set_pending_evt d) = 1"
  "edid_reads (hpd_set_pending_evt d) = edid_reads d"
  "ops (hpd_set_pending_evt d) = ops d"
  "dwork (hpd_set_pending_evt d) = (if shutdown d = 0 then Some 0 else None)"
  "count_ev is_defensive_warning (trace (hpd_set_pending_evt d)) = count_ev is_defensive_warning (trace d)"
  "count_ev is_schedule (trace (hpd_set_pending_evt d)) =
     (if shutdown d = 0 then 1 else 0) + count_ev is_schedule (trace d)"
  by (simp_all add: hpd_set_pending_evt_def sched_hpd_work_dwork sched_hpd_work_trace
        word_sle_eq)

lemma hpd_shutdown_fields [simp]:
  "state (hpd_shutdown d) = state d"
  "shutdown (hpd_shutdown d) = 1"
  "pending_hpd_evt (hpd_shutdown d) = pending_hpd_evt d"
  "edid_reads (hpd_shutdown d) = edid_reads d"
  "ops (hpd_shutdown d) = ops d"
  "dwork (hpd_shutdown d) = None"
  "count_ev is_defensive_warning (trace (hpd_shutdown d)) = count_ev is_defensive_warning (trace d)"
  "count_ev is_schedule (trace (hpd_shutdown d)) = count_ev is_schedule (trace d)"
  by (simp_all add: hpd_shutdown_def cancel_delayed_work_sync_def call_hook_def Let_def
        split: option.splits)

lemma sched_hpd_work_split:
  "sched_hpd_work d t =
     (case sched_hpd_work_test d t of
        (d1, None) \<Rightarrow> d1
      | (d1, Some ms) \<Rightarrow> schedule_delayed_work d1 ms)"
  by (simp add: sched_hpd_work_def sched_hpd_work_test_def Let_def)

lemma notify_split:
  assumes "notifier s = None"
  shows "run [Notify_begins, Notify_schedules] s
           = Inr (s\<lparr>ctx := hpd_set_pending_evt (ctx s)\<rparr>)"
  using assms
  by (simp add: hpd_set_pending_evt_def sched_hpd_work_def sched_hpd_work_test_def Let_def)

lemma worker_effect_counter:
  assumes e: "worker_effect p d d'"
    and lo: "0 \<le> sint (edid_reads d)" and hi: "sint (edid_reads d) \<le> 5"
    and rt: "retrying_state (state d) \<longrightarrow> sint (edid_reads d) < 5"
  shows "0 \<le> sint (edid_reads d') \<and> sint (edid_reads d') \<le> 5 \<and>
         (retrying_state (state d') \<longrightarrow> sint (edid_reads d') < 5) \<and>
         (fresh_attempt (state d) (state d') \<longrightarrow> edid_reads d' = 0) \<and>
         (\<not> fresh_attempt (state d) (state d') \<longrightarrow>
            edid_reads d' = edid_reads d \<or> edid_reads d' = edid_reads d + 1)"
proof (cases "fresh_attempt (state d) (state d')")
  case True
  with e have "edid_reads d' = 0" by (simp add: worker_effect_def)
  with True show ?thesis by simp
next
  case False
  show ?thesis
  proof (cases "edid_reads d' = edid_reads d")
    case True
    with e False have "\<not> retrying_state (state d')" by (simp add: worker_effect_def)
    with True False lo hi show ?thesis by simp
  next
    case ne: False
    with e False have inc: "edid_reads d' = edid_reads d + 1"
      and r: "retrying_state (state d)"
      and nx: "if edid_reads d + 1 <s MAX_EDID_READ_ATTEMPTS then state d' = state d
               else \<not> retrying_state (state d')"
      by (simp_all add: worker_effect_def)
    from r rt have lt: "sint (edid_reads d) < 5" by simp
    from sint_inc_below_5 [OF lo lt] inc
    have s: "sint (edid_reads d') = sint (edid_reads d) + 1" by simp
    have "retrying_state (state d') \<longrightarrow> sint (edid_reads d') < 5"
      using nx inc by (auto simp add: word_sless_alt split: if_splits)
    with s lo lt inc False show ?thesis by simp
  qed
qed

lemma sys_step_inv:
  assumes inv: "sys_inv w s"
  shows "\<exists>s'. sys_step a s = Inr s' \<and> sys_inv w s' \<and>
           (fresh_attempt (state (ctx s)) (state (ctx s')) \<longrightarrow> edid_reads (ctx s') = 0) \<and>
           (\<not> fresh_attempt (state (ctx s)) (state (ctx s')) \<longrightarrow>
              edid_reads (ctx s') = edid_reads (ctx s)
              \<or> edid_reads (ctx s') = edid_reads (ctx s) + 1)"
proof -
  from inv have v: "valid_state (state (ctx s))" and m: "mandatory_ops (ops (ctx s))"
    and lo: "0 \<le> sint (edid_reads (ctx s))" and hi: "sint (edid_reads (ctx s)) \<le> 5"
    and rt: "retrying_state (state (ctx s)) \<longrightarrow> sint (edid_reads (ctx s)) < 5"
    by (simp_all add: sys_inv_def)
  have nf: "\<not> fresh_attempt (state (ctx s)) (state (ctx s))"
    by (auto simp add: fresh_attempt_def)
  show ?thesis
  proof (cases a)
    case Notify_begins
    with inv nf show ?thesis
      by (auto simp add: sys_inv_def sched_hpd_work_test_def cancel_delayed_work_def Let_def
            split: worker_phase.splits)
  next
    case Notify_schedules
    with inv nf show ?thesis
      by (auto simp add: sys_inv_def schedule_delayed_work_def
            split: worker_phase.splits option.splits)
  next
    case Timer_expires
    with inv nf show ?thesis
      by (auto simp add: sys_inv_def split: worker_phase.splits)
  next
    case Worker_latches
    with inv nf show ?thesis
      by (auto simp add: sys_inv_def hpd_worker_latch_def split: worker_phase.splits)
  next
    case Worker_runs
    show ?thesis
    proof (cases "notifier s = None")
      case False
      with Worker_runs inv nf show ?thesis by auto
    next
      case free: True
      show ?thesis
      proof (cases "phase s")
        case (Latched p)
        from worker_effect_body [OF v m, of p]
        obtain d' where b: "hpd_worker_body (ctx s) p = Inr d'"
          and e: "worker_effect p (ctx s) d'"
          by blast
        note c = worker_effect_counter [OF e lo hi rt]
        from inv Latched e free have "sys_inv w (s\<lparr>ctx := d', phase := Idle\<rparr>)"
          using c by (auto simp add: sys_inv_def worker_effect_def)
        with Worker_runs Latched free b c show ?thesis by simp
      qed (use Worker_runs inv nf in simp_all)
    qed
  next
    case Shutdown_begins
    with inv nf show ?thesis
      by (auto simp add: sys_inv_def split: worker_phase.splits)
  next
    case Shutdown_completes
    with inv nf show ?thesis
      by (auto simp add: sys_inv_def split: worker_phase.splits)
  qed
qed

lemma run_inv:
  assumes "sys_inv w s"
  shows "\<exists>s'. run steps s = Inr s' \<and> sys_inv w s'"
  using assms
proof (induction steps arbitrary: s)
  case Nil
  then show ?case by simp
next
  case (Cons a steps)
  from sys_step_inv [OF Cons.prems, of a]
  obtain s1 where "sys_step a s = Inr s1" "sys_inv w s1" by blast
  with Cons.IH [of s1] show ?case by auto
qed

lemma hpd_init_inv:
  assumes "hpd_init (Some d0) drv (Some opv) = Inr d"
  shows "sys_inv (count_ev is_defensive_warning (trace d0)) \<lparr>ctx = d, phase = Idle, notifier = None\<rparr>"
  using assms
  by (auto simp add: hpd_init_def sys_inv_def mandatory_ops_def Let_def
         split: if_splits option.splits)

lemma demo_init:
  "hpd_init (Some (demo_data (demo_ops False False 1) 3 4 1 1)) 0 (Some (demo_ops True True 0))
     = Inr ((demo_data (demo_ops True True 0) STATE_INIT_FROM_BOOTLOADER 0 0 0)
              \<lparr>drv_data := 1, trace := [Op_init]\<rparr>)"
  by (simp add: hpd_init_def demo_data_def demo_ops_def)

text \<open>
  The warning for a missing handler can be reached in a steady state: a second
  notification that arrives after the work item has been dequeued, and before the
  worker latches the flag, queues the item again; the first run ignores the bounce and
  the second run finds no event pending in \<^verbatim>\<open>STATE_DONE_ENABLED\<close>.
\<close>

lemma null_handler_in_steady_state:
  "map_sum id (hd \<circ> trace \<circ> ctx)
     (run [Notify_begins, Notify_schedules, Timer_expires, Worker_latches, Worker_runs,
           Timer_expires, Worker_latches, Worker_runs,
           Timer_expires, Worker_latches, Worker_runs,
           Notify_begins, Notify_schedules, Timer_expires,
           Notify_begins, Notify_schedules, Worker_latches, Worker_runs,
           Timer_expires, Worker_latches, Worker_runs]
        \<lparr>ctx = (demo_data (demo_ops True True 0) STATE_INIT_FROM_BOOTLOADER 0 0 0)
                 \<lparr>drv_data := 1, trace := [Op_init]\<rparr>,
         phase = Idle, notifier = None\<rparr>)
   = Inr (Printk (Warn_null_handler STATE_DONE_ENABLED))"
  by (simp add: demo_data_def demo_ops_def sched_hpd_work_test_def sched_hpd_work_def
        cancel_delayed_work_def schedule_delayed_work_def hpd_worker_latch_def
        hpd_worker_body_def call_op_def state_names_at_def state_names_def printk_def
        handle_hpd_evt_def set_hpd_state_def state_machine_dispatch_def
        hpd_plug_state_def edid_check_state_def call_hook_def Let_def word_sle_eq)

section \<open>Event interpretation (claim C1)\<close>

text \<open>
  C1. In a context whose state is one of the declared ones, \<open>handle_hpd_evt\<close> returns
  normally and follows the transition table on the state and the sampled signal:
  \<^verbatim>\<open>DONE_ENABLED\<close> with the signal low goes to \<^verbatim>\<open>WAIT_FOR_HPD_REASSERT\<close> with the request
  of 1500 ms; \<^verbatim>\<open>WAIT_FOR_HPD_REASSERT\<close> with the signal high zeroes the retry counter and
  goes to \<^verbatim>\<open>RECHECK_EDID\<close> with 60 ms; \<^verbatim>\<open>DONE_ENABLED\<close> with the signal high changes
  nothing but the log (no state change, no scheduling change);
  \<^verbatim>\<open>INIT_FROM_BOOTLOADER\<close> with the signal high goes to \<^verbatim>\<open>PLUG\<close> with 40 ms; every other
  combination goes to \<^verbatim>\<open>RESET\<close> with 40 ms. In each row the handler's result is the
  commit \<open>set_hpd_state\<close> of that target with that delay, and the delayed work after the
  transition is what the commit makes of the requested delay (\<open>resched_outcome\<close>).
\<close>

theorem handle_hpd_evt_table:
  assumes "valid_state (state d)"
  shows "\<exists>d'. handle_hpd_evt d cur_hpd = Inr d' \<and>
           (state d = STATE_DONE_ENABLED \<and> cur_hpd = 0 \<longrightarrow>
              handle_hpd_evt d cur_hpd
                = set_hpd_state d STATE_WAIT_FOR_HPD_REASSERT HPD_DROP_TIMEOUT_MS \<and>
              state d' = STATE_WAIT_FOR_HPD_REASSERT \<and> edid_reads d' = edid_reads d \<and>
              dwork d' = resched_outcome d HPD_DROP_TIMEOUT_MS) \<and>
           (state d = STATE_WAIT_FOR_HPD_REASSERT \<and> cur_hpd \<noteq> 0 \<longrightarrow>
              handle_hpd_evt d cur_hpd
                = set_hpd_state (d\<lparr>edid_reads := 0\<rparr>) STATE_RECHECK_EDID CHECK_EDID_DELAY_MS \<and>
              state d' = STATE_RECHECK_EDID \<and> edid_reads d' = 0 \<and>
              dwork d' = resched_outcome d CHECK_EDID_DELAY_MS) \<and>
           (state d = STATE_DONE_ENABLED \<and> cur_hpd \<noteq> 0 \<longrightarrow>
              d' = d\<lparr>trace := Printk Info_ignoring_bounce # trace d\<rparr>) \<and>
           (state d = STATE_INIT_FROM_BOOTLOADER \<and> cur_hpd \<noteq> 0 \<longrightarrow>
              handle_hpd_evt d cur_hpd = set_hpd_state d STATE_PLUG HPD_STABILIZE_MS \<and>
              state d' = STATE_PLUG \<and> edid_reads d' = edid_reads d \<and>
              dwork d' = resched_outcome d HPD_STABILIZE_MS) \<and>
           (state d \<noteq> STATE_DONE_ENABLED \<and>
            \<not> (state d = STATE_WAIT_FOR_HPD_REASSERT \<and> cur_hpd \<noteq> 0) \<and>
            \<not> (state d = STATE_INIT_FROM_BOOTLOADER \<and> cur_hpd \<noteq> 0) \<longrightarrow>
              handle_hpd_evt d cur_hpd = set_hpd_state d STATE_HPD_RESET HPD_STABILIZE_MS \<and>
              state d' = STATE_HPD_RESET \<and> edid_reads d' = edid_reads d \<and>
              dwork d' = resched_outcome d HPD_STABILIZE_MS)"
proof -
  have rows:
    "state d = STATE_DONE_ENABLED \<and> cur_hpd = 0 \<longrightarrow>
       handle_hpd_evt d cur_hpd
         = set_hpd_state d STATE_WAIT_FOR_HPD_REASSERT HPD_DROP_TIMEOUT_MS"
    "state d = STATE_WAIT_FOR_HPD_REASSERT \<and> cur_hpd \<noteq> 0 \<longrightarrow>
       handle_hpd_evt d cur_hpd
         = set_hpd_state (d\<lparr>edid_reads := 0\<rparr>) STATE_RECHECK_EDID CHECK_EDID_DELAY_MS"
    "state d = STATE_INIT_FROM_BOOTLOADER \<and> cur_hpd \<noteq> 0 \<longrightarrow>
       handle_hpd_evt d cur_hpd = set_hpd_state d STATE_PLUG HPD_STABILIZE_MS"
    "state d \<noteq> STATE_DONE_ENABLED \<and>
     \<not> (state d = STATE_WAIT_FOR_HPD_REASSERT \<and> cur_hpd \<noteq> 0) \<and>
     \<not> (state d = STATE_INIT_FROM_BOOTLOADER \<and> cur_hpd \<noteq> 0) \<longrightarrow>
       handle_hpd_evt d cur_hpd = set_hpd_state d STATE_HPD_RESET HPD_STABILIZE_MS"
    by (auto simp add: handle_hpd_evt_def)
  have "\<exists>d'. handle_hpd_evt d cur_hpd = Inr d' \<and>
           (state d = STATE_DONE_ENABLED \<and> cur_hpd = 0 \<longrightarrow>
              state d' = STATE_WAIT_FOR_HPD_REASSERT \<and> edid_reads d' = edid_reads d \<and>
              dwork d' = resched_outcome d HPD_DROP_TIMEOUT_MS) \<and>
           (state d = STATE_WAIT_FOR_HPD_REASSERT \<and> cur_hpd \<noteq> 0 \<longrightarrow>
              state d' = STATE_RECHECK_EDID \<and> edid_reads d' = 0 \<and>
              dwork d' = resched_outcome d CHECK_EDID_DELAY_MS) \<and>
           (state d = STATE_DONE_ENABLED \<and> cur_hpd \<noteq> 0 \<longrightarrow>
              d' = d\<lparr>trace := Printk Info_ignoring_bounce # trace d\<rparr>) \<and>
           (state d = STATE_INIT_FROM_BOOTLOADER \<and> cur_hpd \<noteq> 0 \<longrightarrow>
              state d' = STATE_PLUG \<and> edid_reads d' = edid_reads d \<and>
              dwork d' = resched_outcome d HPD_STABILIZE_MS) \<and>
           (state d \<noteq> STATE_DONE_ENABLED \<and>
            \<not> (state d = STATE_WAIT_FOR_HPD_REASSERT \<and> cur_hpd \<noteq> 0) \<and>
            \<not> (state d = STATE_INIT_FROM_BOOTLOADER \<and> cur_hpd \<noteq> 0) \<longrightarrow>
              state d' = STATE_HPD_RESET \<and> edid_reads d' = edid_reads d \<and>
              dwork d' = resched_outcome d HPD_STABILIZE_MS)"
    using assms
    by (auto simp add: handle_hpd_evt_def set_hpd_state_valid resched_outcome_def printk_def)
  with rows show ?thesis by blast
qed

theorem handle_hpd_evt_table_witness:
  "map_sum id state (handle_hpd_evt (demo_data (demo_ops False True 0) STATE_DONE_ENABLED 2 0 0) 0)
     = Inr STATE_WAIT_FOR_HPD_REASSERT \<and>
   map_sum id dwork (handle_hpd_evt (demo_data (demo_ops False True 0) STATE_DONE_ENABLED 2 0 0) 0)
     = Inr (Some 1500) \<and>
   map_sum id state (handle_hpd_evt (demo_data (demo_ops True True 0) STATE_WAIT_FOR_HPD_REASSERT 2 0 0) 1)
     = Inr STATE_RECHECK_EDID \<and>
   map_sum id edid_reads (handle_hpd_evt (demo_data (demo_ops True True 0) STATE_WAIT_FOR_HPD_REASSERT 2 0 0) 1)
     = Inr 0 \<and>
   map_sum id dwork (handle_hpd_evt (demo_data (demo_ops True True 0) STATE_WAIT_FOR_HPD_REASSERT 2 0 0) 1)
     = Inr (Some 60) \<and>
   handle_hpd_evt (demo_data (demo_ops True True 0) STATE_DONE_ENABLED 2 0 0) 1
     = Inr ((demo_data (demo_ops True True 0) STATE_DONE_ENABLED 2 0 0)
              \<lparr>trace := [Printk Info_ignoring_bounce]\<rparr>) \<and>
   map_sum id state (handle_hpd_evt (demo_data (demo_ops True True 0) STATE_INIT_FROM_BOOTLOADER 0 0 0) 1)
     = Inr STATE_PLUG \<and>
   map_sum id dwork (handle_hpd_evt (demo_data (demo_ops True True 0) STATE_INIT_FROM_BOOTLOADER 0 0 0) 1)
     = Inr (Some 40) \<and>
   map_sum id state (handle_hpd_evt (demo_data (demo_ops False True 0) STATE_CHECK_EDID 3 0 0) 0)
     = Inr STATE_HPD_RESET \<and>
   map_sum id dwork (handle_hpd_evt (demo_data (demo_ops False True 0) STATE_CHECK_EDID 3 0 0) 0)
     = Inr (Some 40)"
proof -
  let ?a = "demo_data (demo_ops False True 0) STATE_DONE_ENABLED 2 0 0"
  let ?b = "demo_data (demo_ops True True 0) STATE_WAIT_FOR_HPD_REASSERT 2 0 0"
  let ?c = "demo_data (demo_ops True True 0) STATE_DONE_ENABLED 2 0 0"
  let ?e = "demo_data (demo_ops True True 0) STATE_INIT_FROM_BOOTLOADER 0 0 0"
  let ?f = "demo_data (demo_ops False True 0) STATE_CHECK_EDID 3 0 0"
  have va: "valid_state (state ?a)" and vb: "valid_state (state ?b)"
    and vc: "valid_state (state ?c)" and ve: "valid_state (state ?e)"
    and vf: "valid_state (state ?f)"
    by (simp_all add: demo_data_def)
  from handle_hpd_evt_table [OF va, of 0]
  have a: "map_sum id state (handle_hpd_evt ?a 0) = Inr STATE_WAIT_FOR_HPD_REASSERT \<and>
           map_sum id dwork (handle_hpd_evt ?a 0) = Inr (Some 1500)"
    by (auto simp add: demo_data_def resched_outcome_consts)
  from handle_hpd_evt_table [OF vb, of 1]
  have b: "map_sum id state (handle_hpd_evt ?b 1) = Inr STATE_RECHECK_EDID \<and>
           map_sum id edid_reads (handle_hpd_evt ?b 1) = Inr 0 \<and>
           map_sum id dwork (handle_hpd_evt ?b 1) = Inr (Some 60)"
    by (auto simp add: demo_data_def resched_outcome_consts)
  from handle_hpd_evt_table [OF vc, of 1]
  have c: "handle_hpd_evt ?c 1 = Inr (?c\<lparr>trace := [Printk Info_ignoring_bounce]\<rparr>)"
    by (auto simp add: demo_data_def)
  from handle_hpd_evt_table [OF ve, of 1]
  have e: "map_sum id state (handle_hpd_evt ?e 1) = Inr STATE_PLUG \<and>
           map_sum id dwork (handle_hpd_evt ?e 1) = Inr (Some 40)"
    by (auto simp add: demo_data_def resched_outcome_consts)
  from handle_hpd_evt_table [OF vf, of 0]
  have f: "map_sum id state (handle_hpd_evt ?f 0) = Inr STATE_HPD_RESET \<and>
           map_sum id dwork (handle_hpd_evt ?f 0) = Inr (Some 40)"
    by (auto simp add: demo_data_def resched_outcome_consts)
  from a b c e f show ?thesis by (simp only: simp_thms)
qed

section \<open>The commit of a transition (claim C2)\<close>

text \<open>
  C2, as amended. For every transition committed by \<open>set_hpd_state\<close> from a declared
  state to a declared target: the state field becomes the target; if the
  pending-event flag is set at commit time, neither a cancellation nor a scheduling
  call is made and the delayed work is left as it was; if the pending flag is clear,
  any pending callback is cancelled first, and the callback is then scheduled after
  the given delay when the delay is not negative and shutdown has not been requested;
  when the delay is "none" (negative) or shutdown has been requested, the
  cancellation is all that happens.
\<close>

theorem set_hpd_state_reschedule:
  assumes "valid_state (state d)" and "valid_state tgt"
  shows "\<exists>d'. set_hpd_state d tgt t = Inr d' \<and> state d' = tgt \<and>
           (pending_hpd_evt d \<noteq> 0 \<longrightarrow>
              dwork d' = dwork d \<and>
              filter is_sched_call (trace d') = filter is_sched_call (trace d)) \<and>
           (pending_hpd_evt d = 0 \<and> 0 \<le>s t \<and> shutdown d = 0 \<longrightarrow>
              dwork d' = Some (unat t) \<and>
              filter is_sched_call (trace d') =
                Schedule_delayed_work (unat t) # Cancel_delayed_work
                  # filter is_sched_call (trace d)) \<and>
           (pending_hpd_evt d = 0 \<and> \<not> (0 \<le>s t \<and> shutdown d = 0) \<longrightarrow>
              dwork d' = None \<and>
              filter is_sched_call (trace d') =
                Cancel_delayed_work # filter is_sched_call (trace d))"
  using assms
  by (simp add: set_hpd_state_valid committed_def Let_def sched_hpd_work_dwork
        sched_hpd_work_trace printk_def)

theorem set_hpd_state_reschedule_witness:
  "map_sum id dwork
     (set_hpd_state ((demo_data (demo_ops True True 0) STATE_CHECK_EDID 0 1 0)\<lparr>dwork := Some 0\<rparr>)
        STATE_DONE_ENABLED (- 1)) = Inr (Some 0) \<and>
   map_sum id dwork
     (set_hpd_state (demo_data (demo_ops True False 0) STATE_CHECK_EDID 0 0 0)
        STATE_CHECK_EDID CHECK_EDID_DELAY_MS) = Inr (Some 60) \<and>
   map_sum id dwork
     (set_hpd_state ((demo_data (demo_ops True True 0) STATE_CHECK_EDID 0 0 0)\<lparr>dwork := Some 0\<rparr>)
        STATE_DONE_ENABLED (- 1)) = Inr None"
proof -
  let ?a = "(demo_data (demo_ops True True 0) STATE_CHECK_EDID 0 1 0)\<lparr>dwork := Some 0\<rparr>"
  let ?b = "demo_data (demo_ops True False 0) STATE_CHECK_EDID 0 0 0"
  let ?c = "(demo_data (demo_ops True True 0) STATE_CHECK_EDID 0 0 0)\<lparr>dwork := Some 0\<rparr>"
  have va: "valid_state (state ?a)" and vb: "valid_state (state ?b)"
    and vc: "valid_state (state ?c)"
    by (simp_all add: demo_data_def)
  have v4: "valid_state STATE_DONE_ENABLED" and v2: "valid_state STATE_CHECK_EDID"
    by simp_all
  from set_hpd_state_reschedule [OF va v4, of "- 1"]
  have a: "map_sum id dwork (set_hpd_state ?a STATE_DONE_ENABLED (- 1)) = Inr (Some 0)"
    by (auto simp add: demo_data_def)
  from set_hpd_state_reschedule [OF vb v2, of CHECK_EDID_DELAY_MS]
  have b: "map_sum id dwork (set_hpd_state ?b STATE_CHECK_EDID CHECK_EDID_DELAY_MS) = Inr (Some 60)"
    by (auto simp add: demo_data_def word_sle_eq)
  from set_hpd_state_reschedule [OF vc v4, of "- 1"]
  have c: "map_sum id dwork (set_hpd_state ?c STATE_DONE_ENABLED (- 1)) = Inr None"
    by (auto simp add: demo_data_def word_sle_eq)
  from a b c show ?thesis by (simp only: simp_thms)
qed

theorem set_hpd_state_shutdown_counterexample:
  "pending_hpd_evt (demo_data (demo_ops True False 0) STATE_CHECK_EDID 0 0 1) = 0 \<and>
   map_sum id dwork
     (set_hpd_state (demo_data (demo_ops True False 0) STATE_CHECK_EDID 0 0 1)
        STATE_CHECK_EDID CHECK_EDID_DELAY_MS) = Inr None \<and>
   map_sum id (filter is_sched_call \<circ> trace)
     (set_hpd_state (demo_data (demo_ops True False 0) STATE_CHECK_EDID 0 0 1)
        STATE_CHECK_EDID CHECK_EDID_DELAY_MS) = Inr [Cancel_delayed_work]"
  by (simp add: set_hpd_state_valid committed_def demo_data_def Let_def sched_hpd_work_dwork
        sched_hpd_work_trace printk_def)

section \<open>The read handler and its bounded retries (claim C3)\<close>







section \<open>The recheck handler (claim C4)\<close>

text \<open>
  C4. In \<^verbatim>\<open>RECHECK_EDID\<close> the handler calls the recheck operation once and returns
  normally. An unchanged descriptor (0) leads to \<^verbatim>\<open>DONE_ENABLED\<close> with delay "none": no
  callback is scheduled. A failure (-1) increments the retry counter; while the
  incremented counter is below 5 the handler stays in \<^verbatim>\<open>RECHECK_EDID\<close> with a delay of
  60 ms, and at 5 it goes to \<^verbatim>\<open>RESET\<close> with delay 0. Any other result (a changed
  descriptor) goes to \<^verbatim>\<open>RESET\<close> with delay 0, the counter unchanged. Both ways to
  \<^verbatim>\<open>RESET\<close> use the default pair (\<^verbatim>\<open>STATE_HPD_RESET\<close>, 0) that the handler starts with.
  In each case the handler's result is the commit \<open>set_hpd_state\<close> of that target with
  that delay, and the delayed work afterwards is what the commit makes of the delay.
\<close>

theorem edid_recheck_state_outcomes:
  assumes "state d = STATE_RECHECK_EDID"
    and "edid_recheck (ops d) = Some r" and "r (drv_data d) = (status, x)"
  shows "\<exists>d'. edid_recheck_state d = Inr d' \<and>
           filter is_op_call (trace d') = Op_edid_recheck status # filter is_op_call (trace d) \<and>
           (status = 0 \<longrightarrow>
              edid_recheck_state d
                = set_hpd_state
                    (printk Info_no_edid_change
                       (d\<lparr>drv_data := x, trace := Op_edid_recheck status # trace d\<rparr>))
                    STATE_DONE_ENABLED (- 1) \<and>
              state d' = STATE_DONE_ENABLED \<and> edid_reads d' = edid_reads d \<and>
              dwork d' = resched_outcome d (- 1) \<and>
              count_ev is_schedule (trace d') = count_ev is_schedule (trace d)) \<and>
           (status = - 1 \<and> edid_reads d + 1 <s MAX_EDID_READ_ATTEMPTS \<longrightarrow>
              edid_recheck_state d
                = set_hpd_state
                    (d\<lparr>drv_data := x, trace := Op_edid_recheck status # trace d,
                       edid_reads := edid_reads d + 1\<rparr>)
                    STATE_RECHECK_EDID CHECK_EDID_DELAY_MS \<and>
              state d' = STATE_RECHECK_EDID \<and> edid_reads d' = edid_reads d + 1 \<and>
              dwork d' = resched_outcome d CHECK_EDID_DELAY_MS) \<and>
           (status = - 1 \<and> MAX_EDID_READ_ATTEMPTS \<le>s edid_reads d + 1 \<longrightarrow>
              edid_recheck_state d
                = set_hpd_state
                    (printk (Info_retry_giving_up (edid_reads d + 1))
                       (d\<lparr>drv_data := x, trace := Op_edid_recheck status # trace d,
                          edid_reads := edid_reads d + 1\<rparr>))
                    STATE_HPD_RESET 0 \<and>
              state d' = STATE_HPD_RESET \<and> edid_reads d' = edid_reads d + 1 \<and>
              dwork d' = resched_outcome d 0) \<and>
           (status \<noteq> 0 \<and> status \<noteq> - 1 \<longrightarrow>
              edid_recheck_state d
                = set_hpd_state (d\<lparr>drv_data := x, trace := Op_edid_recheck status # trace d\<rparr>)
                    STATE_HPD_RESET 0 \<and>
              state d' = STATE_HPD_RESET \<and> edid_reads d' = edid_reads d \<and>
              dwork d' = resched_outcome d 0)"
proof -
  have rows:
    "status = 0 \<longrightarrow>
       edid_recheck_state d
         = set_hpd_state
             (printk Info_no_edid_change
                (d\<lparr>drv_data := x, trace := Op_edid_recheck status # trace d\<rparr>))
             STATE_DONE_ENABLED (- 1)"
    "status = - 1 \<and> edid_reads d + 1 <s MAX_EDID_READ_ATTEMPTS \<longrightarrow>
       edid_recheck_state d
         = set_hpd_state
             (d\<lparr>drv_data := x, trace := Op_edid_recheck status # trace d,
                edid_reads := edid_reads d + 1\<rparr>)
             STATE_RECHECK_EDID CHECK_EDID_DELAY_MS"
    "status = - 1 \<and> MAX_EDID_READ_ATTEMPTS \<le>s edid_reads d + 1 \<longrightarrow>
       edid_recheck_state d
         = set_hpd_state
             (printk (Info_retry_giving_up (edid_reads d + 1))
                (d\<lparr>drv_data := x, trace := Op_edid_recheck status # trace d,
                   edid_reads := edid_reads d + 1\<rparr>))
             STATE_HPD_RESET 0"
    "status \<noteq> 0 \<and> status \<noteq> - 1 \<longrightarrow>
       edid_recheck_state d
         = set_hpd_state (d\<lparr>drv_data := x, trace := Op_edid_recheck status # trace d\<rparr>)
             STATE_HPD_RESET 0"
    using assms(2,3)
    by (auto simp add: edid_recheck_state_def call_op_def Let_def word_sle_eq word_sless_alt)
  have "\<exists>d'. edid_recheck_state d = Inr d' \<and>
           filter is_op_call (trace d') = Op_edid_recheck status # filter is_op_call (trace d) \<and>
           (status = 0 \<longrightarrow>
              state d' = STATE_DONE_ENABLED \<and> edid_reads d' = edid_reads d \<and>
              dwork d' = resched_outcome d (- 1) \<and>
              count_ev is_schedule (trace d') = count_ev is_schedule (trace d)) \<and>
           (status = - 1 \<and> edid_reads d + 1 <s MAX_EDID_READ_ATTEMPTS \<longrightarrow>
              state d' = STATE_RECHECK_EDID \<and> edid_reads d' = edid_reads d + 1 \<and>
              dwork d' = resched_outcome d CHECK_EDID_DELAY_MS) \<and>
           (status = - 1 \<and> MAX_EDID_READ_ATTEMPTS \<le>s edid_reads d + 1 \<longrightarrow>
              state d' = STATE_HPD_RESET \<and> edid_reads d' = edid_reads d + 1 \<and>
              dwork d' = resched_outcome d 0) \<and>
           (status \<noteq> 0 \<and> status \<noteq> - 1 \<longrightarrow>
              state d' = STATE_HPD_RESET \<and> edid_reads d' = edid_reads d \<and>
              dwork d' = resched_outcome d 0)"
    using assms
    by (auto simp add: edid_recheck_state_def call_op_Some set_hpd_state_valid Let_def
          resched_outcome_def committed_count_schedule word_sle_eq word_sless_alt)
  with rows show ?thesis by blast
qed

theorem edid_recheck_state_outcomes_witness:
  "map_sum id state (edid_recheck_state (demo_data (demo_ops True True 0) STATE_RECHECK_EDID 2 0 0))
     = Inr STATE_DONE_ENABLED \<and>
   map_sum id dwork (edid_recheck_state (demo_data (demo_ops True True 0) STATE_RECHECK_EDID 2 0 0))
     = Inr None \<and>
   map_sum id state (edid_recheck_state (demo_data (demo_ops True True (- 1)) STATE_RECHECK_EDID 3 0 0))
     = Inr STATE_RECHECK_EDID \<and>
   map_sum id edid_reads (edid_recheck_state (demo_data (demo_ops True True (- 1)) STATE_RECHECK_EDID 3 0 0))
     = Inr 4 \<and>
   map_sum id dwork (edid_recheck_state (demo_data (demo_ops True True (- 1)) STATE_RECHECK_EDID 3 0 0))
     = Inr (Some 60) \<and>
   map_sum id state (edid_recheck_state (demo_data (demo_ops True True (- 1)) STATE_RECHECK_EDID 4 0 0))
     = Inr STATE_HPD_RESET \<and>
   map_sum id edid_reads (edid_recheck_state (demo_data (demo_ops True True (- 1)) STATE_RECHECK_EDID 4 0 0))
     = Inr 5 \<and>
   map_sum id dwork (edid_recheck_state (demo_data (demo_ops True True (- 1)) STATE_RECHECK_EDID 4 0 0))
     = Inr (Some 0) \<and>
   map_sum id state (edid_recheck_state (demo_data (demo_ops True True 1) STATE_RECHECK_EDID 2 0 0))
     = Inr STATE_HPD_RESET \<and>
   map_sum id dwork (edid_recheck_state (demo_data (demo_ops True True 1) STATE_RECHECK_EDID 2 0 0))
     = Inr (Some 0)"
proof -
  let ?a = "demo_data (demo_ops True True 0) STATE_RECHECK_EDID 2 0 0"
  let ?b = "demo_data (demo_ops True True (- 1)) STATE_RECHECK_EDID 3 0 0"
  let ?c = "demo_data (demo_ops True True (- 1)) STATE_RECHECK_EDID 4 0 0"
  let ?e = "demo_data (demo_ops True True 1) STATE_RECHECK_EDID 2 0 0"
  have sa: "state ?a = STATE_RECHECK_EDID" and sb: "state ?b = STATE_RECHECK_EDID"
    and sc: "state ?c = STATE_RECHECK_EDID" and se: "state ?e = STATE_RECHECK_EDID"
    by (simp_all add: demo_data_def)
  have ra: "edid_recheck (ops ?a) = Some (\<lambda>x. (0, Suc x))"
    and rb: "edid_recheck (ops ?b) = Some (\<lambda>x. (- 1, Suc x))"
    and rc: "edid_recheck (ops ?c) = Some (\<lambda>x. (- 1, Suc x))"
    and re: "edid_recheck (ops ?e) = Some (\<lambda>x. (1, Suc x))"
    by (simp_all add: demo_data_def demo_ops_def)
  have xa: "(\<lambda>x. (0 :: c_int, Suc x)) (drv_data ?a) = (0, 1)"
    and xb: "(\<lambda>x. (- 1 :: c_int, Suc x)) (drv_data ?b) = (- 1, 1)"
    and xc: "(\<lambda>x. (- 1 :: c_int, Suc x)) (drv_data ?c) = (- 1, 1)"
    and xe: "(\<lambda>x. (1 :: c_int, Suc x)) (drv_data ?e) = (1, 1)"
    by (simp_all add: demo_data_def)
  from edid_recheck_state_outcomes [OF sa ra xa]
  have a: "map_sum id state (edid_recheck_state ?a) = Inr STATE_DONE_ENABLED \<and>
           map_sum id dwork (edid_recheck_state ?a) = Inr None"
    by (auto simp add: demo_data_def resched_outcome_consts)
  from edid_recheck_state_outcomes [OF sb rb xb]
  have b: "map_sum id state (edid_recheck_state ?b) = Inr STATE_RECHECK_EDID \<and>
           map_sum id edid_reads (edid_recheck_state ?b) = Inr 4 \<and>
           map_sum id dwork (edid_recheck_state ?b) = Inr (Some 60)"
    by (auto simp add: demo_data_def resched_outcome_consts word_sle_eq word_sless_alt)
  from edid_recheck_state_outcomes [OF sc rc xc]
  have c: "map_sum id state (edid_recheck_state ?c) = Inr STATE_HPD_RESET \<and>
           map_sum id edid_reads (edid_recheck_state ?c) = Inr 5 \<and>
           map_sum id dwork (edid_recheck_state ?c) = Inr (Some 0)"
    by (auto simp add: demo_data_def resched_outcome_consts word_sle_eq word_sless_alt)
  from edid_recheck_state_outcomes [OF se re xe]
  have e: "map_sum id state (edid_recheck_state ?e) = Inr STATE_HPD_RESET \<and>
           map_sum id dwork (edid_recheck_state ?e) = Inr (Some 0)"
    by (auto simp add: demo_data_def resched_outcome_consts)
  from a b c e show ?thesis by (simp only: simp_thms)
qed

section \<open>Scheduling after shutdown (claim C5)\<close>

text \<open>
  What holds of the scheduling step taken by itself: when the shutdown flag is set at
  the moment of its test, \<open>sched_hpd_work\<close> only cancels, for every state and every
  requested delay, and so do a commit and a notification that reach it.
\<close>

lemma sched_hpd_work_flag_set:
  assumes "shutdown d \<noteq> 0"
  shows "dwork (sched_hpd_work d t) = None"
    and "count_ev is_schedule (trace (sched_hpd_work d t)) = count_ev is_schedule (trace d)"
    and "dwork (hpd_set_pending_evt d) = None"
    and "count_ev is_schedule (trace (hpd_set_pending_evt d)) = count_ev is_schedule (trace d)"
    and "count_ev is_schedule (trace (committed d tgt t)) = count_ev is_schedule (trace d)"
    and "snd (sched_hpd_work_test d t) = None"
  using assms
  by (simp_all add: sched_hpd_work_dwork sched_hpd_work_trace committed_count_schedule
        sched_hpd_work_test_def cancel_delayed_work_def Let_def)

text \<open>
  C5 does not hold of the code. \<^verbatim>\<open>hpd_shutdown\<close> writes \<^verbatim>\<open>data->shutdown\<close> without
  taking the lock under which \<^verbatim>\<open>sched_hpd_work\<close> tests it. From any context that is not
  shutting down, a notification that has passed the test, followed by the whole of
  \<^verbatim>\<open>hpd_shutdown\<close> (the flag, the synchronous cancellation, the client's shutdown
  operation), followed by the rest of the notification, ends with the flag set and the
  callback scheduled with delay 0: \<^verbatim>\<open>schedule_delayed_work\<close> is the newest call of the
  trace, made after the flag was set and after \<^verbatim>\<open>hpd_shutdown\<close> has returned.
\<close>

theorem schedule_after_shutdown_race:
  assumes "shutdown d = 0"
  shows "\<exists>s. run [Notify_begins, Shutdown_begins, Shutdown_completes, Notify_schedules]
                \<lparr>ctx = d, phase = Idle, notifier = None\<rparr> = Inr s \<and>
             shutdown (ctx s) = 1 \<and> dwork (ctx s) = Some 0 \<and>
             pending_hpd_evt (ctx s) = 1 \<and> state (ctx s) = state d \<and>
             trace (ctx s) =
               Schedule_delayed_work 0
               # (case shutdown_op (ops d) of None \<Rightarrow> [] | Some f \<Rightarrow> [Op_shutdown])
               @ Cancel_delayed_work_sync # Cancel_delayed_work # trace d"
proof -
  let ?d1 = "cancel_delayed_work (d\<lparr>pending_hpd_evt := 1\<rparr>)"
  have test: "sched_hpd_work_test (d\<lparr>pending_hpd_evt := 1\<rparr>) 0 = (?d1, Some 0)"
    using assms by (simp add: sched_hpd_work_test_def cancel_delayed_work_def Let_def word_sle_eq)
  have s1: "sys_step Notify_begins \<lparr>ctx = d, phase = Idle, notifier = None\<rparr>
              = Inr \<lparr>ctx = ?d1, phase = Idle, notifier = Some 0\<rparr>"
    by (simp add: test)
  have s2: "sys_step Shutdown_begins \<lparr>ctx = ?d1, phase = Idle, notifier = Some 0\<rparr>
              = Inr \<lparr>ctx = ?d1\<lparr>shutdown := 1\<rparr>, phase = Idle, notifier = Some 0\<rparr>"
    by simp
  have s3: "sys_step Shutdown_completes
              \<lparr>ctx = ?d1\<lparr>shutdown := 1\<rparr>, phase = Idle, notifier = Some 0\<rparr>
              = Inr \<lparr>ctx = hpd_shutdown (?d1\<lparr>shutdown := 1\<rparr>), phase = Idle,
                     notifier = Some 0\<rparr>"
    by simp
  have s4: "sys_step Notify_schedules
              \<lparr>ctx = hpd_shutdown (?d1\<lparr>shutdown := 1\<rparr>), phase = Idle, notifier = Some 0\<rparr>
              = Inr \<lparr>ctx = schedule_delayed_work (hpd_shutdown (?d1\<lparr>shutdown := 1\<rparr>)) 0,
                     phase = Idle, notifier = None\<rparr>"
    by simp
  have r: "run [Notify_begins, Shutdown_begins, Shutdown_completes, Notify_schedules]
             \<lparr>ctx = d, phase = Idle, notifier = None\<rparr>
           = Inr \<lparr>ctx = schedule_delayed_work (hpd_shutdown (?d1\<lparr>shutdown := 1\<rparr>)) 0,
                  phase = Idle, notifier = None\<rparr>"
    by (simp only: run.simps s1 s2 s3 s4 sum.case)
  show ?thesis
    unfolding r
    by (simp add: schedule_delayed_work_def hpd_shutdown_def cancel_delayed_work_sync_def
          cancel_delayed_work_def call_hook_def Let_def split: option.splits)
qed

theorem schedule_after_shutdown_race_witness:
  "hpd_init (Some (demo_data (demo_ops False False 1) 3 4 1 1)) 0 (Some (demo_ops True True 0))
     = Inr ((demo_data (demo_ops True True 0) STATE_INIT_FROM_BOOTLOADER 0 0 0)
              \<lparr>drv_data := 1, trace := [Op_init]\<rparr>) \<and>
   map_sum id (shutdown \<circ> ctx)
     (run [Notify_begins, Shutdown_begins, Shutdown_completes, Notify_schedules]
        \<lparr>ctx = (demo_data (demo_ops True True 0) STATE_INIT_FROM_BOOTLOADER 0 0 0)
                 \<lparr>drv_data := 1, trace := [Op_init]\<rparr>,
         phase = Idle, notifier = None\<rparr>) = Inr 1 \<and>
   map_sum id (dwork \<circ> ctx)
     (run [Notify_begins, Shutdown_begins, Shutdown_completes, Notify_schedules]
        \<lparr>ctx = (demo_data (demo_ops True True 0) STATE_INIT_FROM_BOOTLOADER 0 0 0)
                 \<lparr>drv_data := 1, trace := [Op_init]\<rparr>,
         phase = Idle, notifier = None\<rparr>) = Inr (Some 0) \<and>
   map_sum id (trace \<circ> ctx)
     (run [Notify_begins, Shutdown_begins, Shutdown_completes, Notify_schedules]
        \<lparr>ctx = (demo_data (demo_ops True True 0) STATE_INIT_FROM_BOOTLOADER 0 0 0)
                 \<lparr>drv_data := 1, trace := [Op_init]\<rparr>,
         phase = Idle, notifier = None\<rparr>)
     = Inr [Schedule_delayed_work 0, Op_shutdown, Cancel_delayed_work_sync,
            Cancel_delayed_work, Op_init] \<and>
   map_sum id (filter is_op_call \<circ> trace \<circ> ctx)
     (run [Notify_begins, Shutdown_begins, Shutdown_completes, Notify_schedules,
           Timer_expires, Worker_latches, Worker_runs]
        \<lparr>ctx = (demo_data (demo_ops True True 0) STATE_INIT_FROM_BOOTLOADER 0 0 0)
                 \<lparr>drv_data := 1, trace := [Op_init]\<rparr>,
         phase = Idle, notifier = None\<rparr>)
     = Inr [Op_get_hpd_state True, Op_shutdown, Op_init]"
proof -
  let ?d = "(demo_data (demo_ops True True 0) STATE_INIT_FROM_BOOTLOADER 0 0 0)
              \<lparr>drv_data := 1, trace := [Op_init]\<rparr>"
  let ?race = "[Notify_begins, Shutdown_begins, Shutdown_completes, Notify_schedules]"
  have sh: "shutdown ?d = 0" by (simp add: demo_data_def)
  from schedule_after_shutdown_race [OF sh]
  obtain s where s: "run ?race \<lparr>ctx = ?d, phase = Idle, notifier = None\<rparr> = Inr s"
    and f: "shutdown (ctx s) = 1" "dwork (ctx s) = Some 0"
    and t: "trace (ctx s) =
              Schedule_delayed_work 0
              # (case shutdown_op (ops ?d) of None \<Rightarrow> [] | Some f \<Rightarrow> [Op_shutdown])
              @ Cancel_delayed_work_sync # Cancel_delayed_work # trace ?d"
    by blast
  from t have t': "trace (ctx s) = [Schedule_delayed_work 0, Op_shutdown,
                     Cancel_delayed_work_sync, Cancel_delayed_work, Op_init]"
    by (simp add: demo_data_def demo_ops_def)
  have a: "map_sum id (shutdown \<circ> ctx) (run ?race \<lparr>ctx = ?d, phase = Idle, notifier = None\<rparr>)
             = Inr 1"
    and b: "map_sum id (dwork \<circ> ctx) (run ?race \<lparr>ctx = ?d, phase = Idle, notifier = None\<rparr>)
             = Inr (Some 0)"
    and c: "map_sum id (trace \<circ> ctx) (run ?race \<lparr>ctx = ?d, phase = Idle, notifier = None\<rparr>)
             = Inr [Schedule_delayed_work 0, Op_shutdown, Cancel_delayed_work_sync,
                    Cancel_delayed_work, Op_init]"
    using s f t' by simp_all
  have e: "map_sum id (filter is_op_call \<circ> trace \<circ> ctx)
             (run (?race @ [Timer_expires, Worker_latches, Worker_runs])
                \<lparr>ctx = ?d, phase = Idle, notifier = None\<rparr>)
           = Inr [Op_get_hpd_state True, Op_shutdown, Op_init]"
    by (simp add: demo_data_def demo_ops_def sched_hpd_work_test_def sched_hpd_work_def
          cancel_delayed_work_def schedule_delayed_work_def hpd_shutdown_def
          cancel_delayed_work_sync_def hpd_worker_latch_def
          hpd_worker_body_def call_op_def state_names_at_def state_names_def printk_def
          handle_hpd_evt_def set_hpd_state_def call_hook_def Let_def word_sle_eq)
  from demo_init a b c e show ?thesis by simp
qed

section \<open>A state outside the table (claim C6)\<close>

text \<open>
  C6 does not hold of the code. The worker logs \<^verbatim>\<open>state_names[data->state]\<close> before
  it compares the state with the size of the dispatch table: for every context whose
  state is not one of the 8 declared states the invocation reads the name table out
  of bounds, whatever the pending flag is; the embedding ends the invocation at that
  read.
\<close>

theorem hpd_worker_out_of_range_faults:
  assumes "\<not> valid_state (state d)" and "get_hpd_state (ops d) = Some g"
  shows "hpd_worker d = Inl Out_of_bounds_read"
  using assms
  by (simp add: hpd_worker_def hpd_worker_latch_def hpd_worker_body_out_of_range)

theorem hpd_worker_out_of_range_faults_witness:
  "\<not> valid_state HPD_STATE_COUNT \<and>
   hpd_worker (demo_data (demo_ops True True 0) HPD_STATE_COUNT 0 0 0) = Inl Out_of_bounds_read \<and>
   hpd_worker (demo_data (demo_ops True True 0) (- 1) 0 1 0) = Inl Out_of_bounds_read"
proof -
  let ?d = "demo_data (demo_ops True True 0) HPD_STATE_COUNT 0 0 0"
  let ?e = "demo_data (demo_ops True True 0) (- 1) 0 1 0"
  have hd: "\<not> valid_state (state ?d)" and he: "\<not> valid_state (state ?e)"
    and g: "get_hpd_state (ops ?d) = Some (\<lambda>x. (True, Suc x))"
           "get_hpd_state (ops ?e) = Some (\<lambda>x. (True, Suc x))"
    by (simp_all add: demo_data_def demo_ops_def)
  from hpd_worker_out_of_range_faults [OF hd g(1)]
       hpd_worker_out_of_range_faults [OF he g(2)]
  show ?thesis by simp
qed

section \<open>A benign bounce (claim C7)\<close>

text \<open>
  C7. A worker invocation in \<^verbatim>\<open>DONE_ENABLED\<close> with the pending flag set and the signal
  sampled as asserted returns normally in \<^verbatim>\<open>DONE_ENABLED\<close>, with the delayed work
  untouched and no call to a workqueue primitive; the only client operation called
  during the invocation is the sampling of the signal itself, the retry counter, the
  shutdown flag and the operations are unchanged, and the pending flag is cleared.
\<close>

theorem hpd_worker_bounce_ignored:
  assumes "state d = STATE_DONE_ENABLED" and "pending_hpd_evt d \<noteq> 0"
    and "get_hpd_state (ops d) = Some g" and "g (drv_data d) = (True, x)"
  shows "\<exists>d'. hpd_worker d = Inr d' \<and>
           state d' = STATE_DONE_ENABLED \<and>
           dwork d' = dwork d \<and>
           filter is_sched_call (trace d') = filter is_sched_call (trace d) \<and>
           filter is_op_call (trace d') = Op_get_hpd_state True # filter is_op_call (trace d) \<and>
           edid_reads d' = edid_reads d \<and> shutdown d' = shutdown d \<and> ops d' = ops d \<and>
           pending_hpd_evt d' = 0"
  using assms
  by (simp add: hpd_worker_def hpd_worker_latch_def hpd_worker_body_pending
        handle_hpd_evt_def)

theorem hpd_worker_bounce_ignored_witness:
  "map_sum id state
     (hpd_worker ((demo_data (demo_ops True True 0) STATE_DONE_ENABLED 0 1 0)\<lparr>dwork := Some 7\<rparr>))
     = Inr STATE_DONE_ENABLED \<and>
   map_sum id dwork
     (hpd_worker ((demo_data (demo_ops True True 0) STATE_DONE_ENABLED 0 1 0)\<lparr>dwork := Some 7\<rparr>))
     = Inr (Some 7) \<and>
   map_sum id (filter is_op_call \<circ> trace)
     (hpd_worker ((demo_data (demo_ops True True 0) STATE_DONE_ENABLED 0 1 0)\<lparr>dwork := Some 7\<rparr>))
     = Inr [Op_get_hpd_state True] \<and>
   map_sum id (filter is_sched_call \<circ> trace)
     (hpd_worker ((demo_data (demo_ops True True 0) STATE_DONE_ENABLED 0 1 0)\<lparr>dwork := Some 7\<rparr>))
     = Inr []"
proof -
  let ?d = "(demo_data (demo_ops True True 0) STATE_DONE_ENABLED 0 1 0)\<lparr>dwork := Some 7\<rparr>"
  have h: "state ?d = STATE_DONE_ENABLED" "pending_hpd_evt ?d \<noteq> 0"
    "get_hpd_state (ops ?d) = Some (\<lambda>x. (True, Suc x))"
    "(\<lambda>x. (True, Suc x)) (drv_data ?d) = (True, 1)"
    by (simp_all add: demo_data_def demo_ops_def)
  from hpd_worker_bounce_ignored [OF h]
  show ?thesis by (auto simp add: demo_data_def)
qed

section \<open>The retry counter (claim C8)\<close>

text \<open>
  C8. In every state reachable from an initialized context the retry counter lies
  between 0 and the ceiling of 5, and it is below 5 whenever the machine is in one of
  the two retrying states \<^verbatim>\<open>CHECK_EDID\<close> and \<^verbatim>\<open>RECHECK_EDID\<close>: a counter that
  reaches 5 has forced the transition out. Every step from a reachable state returns
  normally; a step that enters \<^verbatim>\<open>CHECK_EDID\<close> from \<^verbatim>\<open>PLUG\<close>, or \<^verbatim>\<open>RECHECK_EDID\<close> from
  \<^verbatim>\<open>WAIT_FOR_HPD_REASSERT\<close>, leaves the counter at 0, and any other step leaves it
  unchanged or incremented by one.
\<close>

theorem edid_reads_bounded_and_reset:
  assumes "hpd_init (Some d0) drv (Some opv) = Inr d"
  shows "\<exists>s. run steps \<lparr>ctx = d, phase = Idle, notifier = None\<rparr> = Inr s \<and>
           0 \<le> sint (edid_reads (ctx s)) \<and>
           sint (edid_reads (ctx s)) \<le> sint MAX_EDID_READ_ATTEMPTS \<and>
           (retrying_state (state (ctx s)) \<longrightarrow>
              sint (edid_reads (ctx s)) < sint MAX_EDID_READ_ATTEMPTS) \<and>
           (\<forall>a. \<exists>s'. sys_step a s = Inr s' \<and>
              (fresh_attempt (state (ctx s)) (state (ctx s')) \<longrightarrow> edid_reads (ctx s') = 0) \<and>
              (\<not> fresh_attempt (state (ctx s)) (state (ctx s')) \<longrightarrow>
                 edid_reads (ctx s') = edid_reads (ctx s)
                 \<or> edid_reads (ctx s') = edid_reads (ctx s) + 1))"
proof -
  from run_inv [OF hpd_init_inv [OF assms], of steps]
  obtain s where s: "run steps \<lparr>ctx = d, phase = Idle, notifier = None\<rparr> = Inr s"
    and i: "sys_inv (count_ev is_defensive_warning (trace d0)) s"
    by blast
  from i have b: "0 \<le> sint (edid_reads (ctx s))"
      "sint (edid_reads (ctx s)) \<le> sint MAX_EDID_READ_ATTEMPTS"
      "retrying_state (state (ctx s)) \<longrightarrow> sint (edid_reads (ctx s)) < sint MAX_EDID_READ_ATTEMPTS"
    by (simp_all add: sys_inv_def)
  have "\<forall>a. \<exists>s'. sys_step a s = Inr s' \<and>
          (fresh_attempt (state (ctx s)) (state (ctx s')) \<longrightarrow> edid_reads (ctx s') = 0) \<and>
          (\<not> fresh_attempt (state (ctx s)) (state (ctx s')) \<longrightarrow>
             edid_reads (ctx s') = edid_reads (ctx s)
             \<or> edid_reads (ctx s') = edid_reads (ctx s) + 1)"
    using sys_step_inv [OF i] by blast
  with s b show ?thesis by blast
qed

theorem edid_reads_bounded_and_reset_witness:
  "\<exists>s s'. run [Notify_begins, Notify_schedules, Timer_expires, Worker_latches, Worker_runs, Timer_expires, Worker_latches]
            \<lparr>ctx = (demo_data (demo_ops True True 0) STATE_INIT_FROM_BOOTLOADER 0 0 0)
                     \<lparr>drv_data := 1, trace := [Op_init]\<rparr>,
             phase = Idle, notifier = None\<rparr> = Inr s \<and>
          sys_step Worker_runs s = Inr s' \<and>
          state (ctx s) = STATE_PLUG \<and> state (ctx s') = STATE_CHECK_EDID \<and>
          edid_reads (ctx s') = 0 \<and> sint (edid_reads (ctx s)) \<le> 5"
proof -
  let ?steps = "[Notify_begins, Notify_schedules, Timer_expires, Worker_latches, Worker_runs, Timer_expires, Worker_latches]"
  let ?d = "(demo_data (demo_ops True True 0) STATE_INIT_FROM_BOOTLOADER 0 0 0)
                 \<lparr>drv_data := 1, trace := [Op_init]\<rparr>"
  note defs = demo_data_def demo_ops_def sched_hpd_work_test_def sched_hpd_work_def
        cancel_delayed_work_def schedule_delayed_work_def hpd_worker_latch_def
        hpd_worker_body_def call_op_def state_names_at_def state_names_def printk_def
        handle_hpd_evt_def set_hpd_state_def state_machine_dispatch_def
        hpd_plug_state_def call_hook_def Let_def word_sle_eq
  from edid_reads_bounded_and_reset [OF demo_init, of ?steps]
  obtain s where s: "run ?steps \<lparr>ctx = ?d, phase = Idle, notifier = None\<rparr> = Inr s"
    and b: "sint (edid_reads (ctx s)) \<le> sint MAX_EDID_READ_ATTEMPTS"
    and st: "\<forall>a. \<exists>s'. sys_step a s = Inr s' \<and>
              (fresh_attempt (state (ctx s)) (state (ctx s')) \<longrightarrow> edid_reads (ctx s') = 0) \<and>
              (\<not> fresh_attempt (state (ctx s)) (state (ctx s')) \<longrightarrow>
                 edid_reads (ctx s') = edid_reads (ctx s)
                 \<or> edid_reads (ctx s') = edid_reads (ctx s) + 1)"
    by blast
  from st obtain s' where s': "sys_step Worker_runs s = Inr s'"
    and f: "fresh_attempt (state (ctx s)) (state (ctx s')) \<longrightarrow> edid_reads (ctx s') = 0"
    by blast
  from s have s1: "state (ctx s) = STATE_PLUG" by (auto simp add: defs)
  from s s' have s2: "state (ctx s') = STATE_CHECK_EDID" by (auto simp add: defs)
  from f s1 s2 have "edid_reads (ctx s') = 0" by (simp add: fresh_attempt_def)
  with s s' s1 s2 b show ?thesis by auto
qed

section \<open>Initialization (claim C9)\<close>

text \<open>
  C9. Given a context and a capability set, \<open>hpd_init\<close> stops in \<^verbatim>\<open>BUG_ON\<close> if and only
  if one of the mandatory operations (get-signal-state, descriptor read,
  descriptor-ready, descriptor recheck) is absent. When all four are present it
  succeeds: the optional \<^verbatim>\<open>init\<close> operation has been called exactly when it is present,
  the state is \<^verbatim>\<open>STATE_INIT_FROM_BOOTLOADER\<close>, and the retry counter, the pending flag
  and the shutdown flag are zero, with no callback pending.
\<close>

theorem hpd_init_mandatory_ops:
  "(hpd_init (Some d) drv (Some opv) = Inl BUG) = (\<not> mandatory_ops opv) \<and>
   (mandatory_ops opv \<longrightarrow>
      (\<exists>d'. hpd_init (Some d) drv (Some opv) = Inr d' \<and>
            state d' = STATE_INIT_FROM_BOOTLOADER \<and>
            edid_reads d' = 0 \<and> pending_hpd_evt d' = 0 \<and> shutdown d' = 0 \<and>
            dwork d' = None \<and> ops d' = opv \<and>
            drv_data d' = (case init opv of None \<Rightarrow> drv | Some f \<Rightarrow> f drv) \<and>
            trace d' = (case init opv of None \<Rightarrow> trace d | Some f \<Rightarrow> Op_init # trace d)))"
proof (cases "mandatory_ops opv")
  case True
  then have present: "get_hpd_state opv \<noteq> None" "edid_read opv \<noteq> None"
    "edid_ready opv \<noteq> None" "edid_recheck opv \<noteq> None"
    by (simp_all add: mandatory_ops_def)
  show ?thesis
  proof (cases "init opv")
    case None
    with True present show ?thesis by (simp add: hpd_init_def)
  next
    case (Some f)
    with True present show ?thesis by (simp add: hpd_init_def)
  qed
next
  case False
  then have "get_hpd_state opv = None \<or> edid_read opv = None
             \<or> edid_ready opv = None \<or> edid_recheck opv = None"
    by (simp add: mandatory_ops_def)
  then have "hpd_init (Some d) drv (Some opv) = Inl BUG"
    by (simp add: hpd_init_def)
  with False show ?thesis by simp
qed

theorem hpd_init_mandatory_ops_witness:
  "mandatory_ops (demo_ops True True 0) \<and>
   map_sum id state (hpd_init (Some (demo_data (demo_ops False False 1) 3 4 1 1)) 0
      (Some (demo_ops True True 0))) = Inr STATE_INIT_FROM_BOOTLOADER \<and>
   map_sum id trace (hpd_init (Some (demo_data (demo_ops False False 1) 3 4 1 1)) 0
      (Some (demo_ops True True 0))) = Inr [Op_init] \<and>
   \<not> mandatory_ops ((demo_ops True True 0)\<lparr>edid_recheck := None\<rparr>) \<and>
   hpd_init (Some (demo_data (demo_ops False False 1) 3 4 1 1)) 0
      (Some ((demo_ops True True 0)\<lparr>edid_recheck := None\<rparr>)) = Inl BUG"
proof -
  let ?d = "demo_data (demo_ops False False 1) 3 4 1 1"
  have m: "mandatory_ops (demo_ops True True 0)"
    and n: "\<not> mandatory_ops ((demo_ops True True 0)\<lparr>edid_recheck := None\<rparr>)"
    by (simp_all add: mandatory_ops_def demo_ops_def)
  from hpd_init_mandatory_ops [of ?d 0 "demo_ops True True 0"] m
  obtain d' where "hpd_init (Some ?d) 0 (Some (demo_ops True True 0)) = Inr d'"
    and "state d' = STATE_INIT_FROM_BOOTLOADER"
    and "trace d' = (case init (demo_ops True True 0 :: nat hpd_ops) of
                       None \<Rightarrow> trace ?d | Some f \<Rightarrow> Op_init # trace ?d)"
    by blast
  then have a: "map_sum id state (hpd_init (Some ?d) 0 (Some (demo_ops True True 0)))
                  = Inr STATE_INIT_FROM_BOOTLOADER"
    and b: "map_sum id trace (hpd_init (Some ?d) 0 (Some (demo_ops True True 0))) = Inr [Op_init]"
    by (simp_all add: demo_ops_def demo_data_def)
  from hpd_init_mandatory_ops [of ?d 0 "(demo_ops True True 0)\<lparr>edid_recheck := None\<rparr>"] n
  have c: "hpd_init (Some ?d) 0 (Some ((demo_ops True True 0)\<lparr>edid_recheck := None\<rparr>)) = Inl BUG"
    by blast
  from m n a b c show ?thesis by (simp only: simp_thms)
qed

section \<open>Reachable states (claim C10)\<close>

text \<open>
  C10. From a context initialized by \<open>hpd_init\<close>, every run (notifications, timer
  expiries, worker latches and runs, shutdown steps, in any order) proceeds without
  fault, the state field is always one of the eight declared constants 0 to 7, and
  the trace never gains a warning from the worker's defensive branch for a state
  outside the table, nor from the branch for a missing handler in a state that is not
  a steady state.
\<close>

theorem reachable_states_declared:
  assumes "hpd_init (Some d0) drv (Some opv) = Inr d"
  shows "\<exists>s. run steps \<lparr>ctx = d, phase = Idle, notifier = None\<rparr> = Inr s \<and>
           (state (ctx s) = STATE_HPD_RESET \<or> state (ctx s) = STATE_PLUG
            \<or> state (ctx s) = STATE_CHECK_EDID \<or> state (ctx s) = STATE_DONE_DISABLED
            \<or> state (ctx s) = STATE_DONE_ENABLED
            \<or> state (ctx s) = STATE_WAIT_FOR_HPD_REASSERT
            \<or> state (ctx s) = STATE_RECHECK_EDID
            \<or> state (ctx s) = STATE_INIT_FROM_BOOTLOADER) \<and>
           count_ev is_defensive_warning (trace (ctx s))
             = count_ev is_defensive_warning (trace d0)"
proof -
  from run_inv [OF hpd_init_inv [OF assms], of steps]
  obtain s where s: "run steps \<lparr>ctx = d, phase = Idle, notifier = None\<rparr> = Inr s"
    and i: "sys_inv (count_ev is_defensive_warning (trace d0)) s"
    by blast
  from i have "valid_state (state (ctx s))"
    and "count_ev is_defensive_warning (trace (ctx s))
           = count_ev is_defensive_warning (trace d0)"
    by (simp_all add: sys_inv_def)
  with s valid_state_cases [of "state (ctx s)"] show ?thesis by blast
qed

theorem reachable_states_declared_witness:
  "map_sum id (valid_state \<circ> state \<circ> ctx)
     (run [Notify_begins, Notify_schedules, Timer_expires, Worker_latches, Worker_runs,
           Timer_expires, Worker_latches, Worker_runs,
           Timer_expires, Worker_latches, Worker_runs,
           Notify_begins, Notify_schedules, Timer_expires,
           Notify_begins, Notify_schedules, Worker_latches, Worker_runs,
           Timer_expires, Worker_latches, Worker_runs]
        \<lparr>ctx = (demo_data (demo_ops True True 0) STATE_INIT_FROM_BOOTLOADER 0 0 0)
                 \<lparr>drv_data := 1, trace := [Op_init]\<rparr>,
         phase = Idle, notifier = None\<rparr>) = Inr True \<and>
   map_sum id (count_ev is_defensive_warning \<circ> trace \<circ> ctx)
     (run [Notify_begins, Notify_schedules, Timer_expires, Worker_latches, Worker_runs,
           Timer_expires, Worker_latches, Worker_runs,
           Timer_expires, Worker_latches, Worker_runs,
           Notify_begins, Notify_schedules, Timer_expires,
           Notify_begins, Notify_schedules, Worker_latches, Worker_runs,
           Timer_expires, Worker_latches, Worker_runs]
        \<lparr>ctx = (demo_data (demo_ops True True 0) STATE_INIT_FROM_BOOTLOADER 0 0 0)
                 \<lparr>drv_data := 1, trace := [Op_init]\<rparr>,
         phase = Idle, notifier = None\<rparr>) = Inr 0"
proof -
  let ?steps = "[Notify_begins, Notify_schedules, Timer_expires, Worker_latches, Worker_runs,
           Timer_expires, Worker_latches, Worker_runs,
           Timer_expires, Worker_latches, Worker_runs,
           Notify_begins, Notify_schedules, Timer_expires,
           Notify_begins, Notify_schedules, Worker_latches, Worker_runs,
           Timer_expires, Worker_latches, Worker_runs]"
  let ?d = "(demo_data (demo_ops True True 0) STATE_INIT_FROM_BOOTLOADER 0 0 0)
                 \<lparr>drv_data := 1, trace := [Op_init]\<rparr>"
  from reachable_states_declared [OF demo_init, of ?steps]
  obtain s where s: "run ?steps \<lparr>ctx = ?d, phase = Idle, notifier = None\<rparr> = Inr s"
    and v: "state (ctx s) = STATE_HPD_RESET \<or> state (ctx s) = STATE_PLUG
            \<or> state (ctx s) = STATE_CHECK_EDID \<or> state (ctx s) = STATE_DONE_DISABLED
            \<or> state (ctx s) = STATE_DONE_ENABLED
            \<or> state (ctx s) = STATE_WAIT_FOR_HPD_REASSERT
            \<or> state (ctx s) = STATE_RECHECK_EDID
            \<or> state (ctx s) = STATE_INIT_FROM_BOOTLOADER"
    and w: "count_ev is_defensive_warning (trace (ctx s))
              = count_ev is_defensive_warning
                  (trace (demo_data (demo_ops False False 1) 3 4 1 1))"
    by blast
  from v have "valid_state (state (ctx s))" by (elim disjE) simp_all
  moreover from w have "count_ev is_defensive_warning (trace (ctx s)) = 0"
    by (simp add: demo_data_def)
  ultimately show ?thesis using s by simp
qed

end
